theory Spec2Isabelle
  imports Main
begin

section \<open>Strings and exceptions\<close>

text \<open>
  A Python \<open>str\<close> is a sequence of Unicode code points, so it is modelled as a list of
  natural numbers; \<open>len\<close> is \<open>length\<close>. ASCII literals of the source are written with
  \<open>asc\<close>; the non-ASCII literals of the source are given by their code points.
\<close>

type_synonym ustr = "nat list"

definition asc :: "string \<Rightarrow> ustr" where
  "asc s = map of_char s"

text \<open>
  Every exception of the model is an instance of Python's \<open>Exception\<close> class (what the
  browser driver, the markup parser, the codecs, \<open>time.sleep\<close> and the file system raise);
  its payload is the message \<open>str(e)\<close>.
\<close>

datatype exn = Exception ustr

fun str_of_exn :: "exn \<Rightarrow> ustr" where
  "str_of_exn (Exception m) = m"

text \<open>\<open>str(n)\<close> for the integers of the f-strings and of the codec's message.\<close>

function str_nat :: "nat \<Rightarrow> ustr" where
  "str_nat n = (if n < 10 then [48 + n] else str_nat (n div 10) @ [48 + n mod 10])"
  by pat_completeness auto
termination
  by (relation "measure id") auto

declare str_nat.simps [simp del]

definition str_int :: "int \<Rightarrow> ustr" where
  "str_int i = (if i < 0 then 45 # str_nat (nat (- i)) else str_nat (nat i))"

text \<open>
  The console and the output file encode text as UTF-8 with the strict error handler,
  which has no encoding for a surrogate code point. Encoding a string that holds one raises \<open>UnicodeEncodeError\<close>,
  whose message names the first run of surrogates: the character and its position when the
  run is one character long, the first and last position otherwise.
\<close>

definition is_surrogate :: "nat \<Rightarrow> bool" where
  "is_surrogate c = (55296 \<le> c \<and> c \<le> 57343)"

definition utf8_encodable :: "ustr \<Rightarrow> bool" where
  "utf8_encodable s = (\<not> list_ex is_surrogate s)"

definition hex_digit :: "nat \<Rightarrow> nat" where
  "hex_digit n = (if n < 10 then 48 + n else 87 + n)"

definition hex4 :: "nat \<Rightarrow> ustr" where
  "hex4 c = [hex_digit (c div 4096 mod 16), hex_digit (c div 256 mod 16),
             hex_digit (c div 16 mod 16), hex_digit (c mod 16)]"

definition unicode_encode_error :: "ustr \<Rightarrow> exn" where
  "unicode_encode_error s =
     (let start = length (takeWhile (\<lambda>c. \<not> is_surrogate c) s);
          bad = takeWhile is_surrogate (drop start s)
      in Exception
           ([39] @ asc ''utf-8'' @ [39] @ asc '' codec can'' @ [39] @ asc ''t encode '' @
            (case bad of
               [c] \<Rightarrow> asc ''character '' @ [39, 92, 117] @ hex4 c @ [39] @
                        asc '' in position '' @ str_nat start
             | _ \<Rightarrow> asc ''characters in position '' @ str_nat start @ [45] @
                      str_nat (start + length bad - 1)) @
            asc '': surrogates not allowed''))"

section \<open>The state of the process\<close>

text \<open>
  The state of the process: how many browser sessions were launched and released so far,
  the seconds spent in \<open>time.sleep\<close>, the lines printed on the console (oldest first), and
  the contents of the files written.
\<close>

record sys =
  launched :: nat
  released :: nat
  slept :: int
  console :: "ustr list"
  files :: "ustr \<rightharpoonup> ustr"

text \<open>
  A computation reads and updates the state and either returns a value or raises.
\<close>

type_synonym 'a io = "sys \<Rightarrow> (exn + 'a) \<times> sys"

definition io_return :: "'a \<Rightarrow> 'a io" where
  "io_return x = (\<lambda>st. (Inr x, st))"

definition io_bind :: "'a io \<Rightarrow> ('a \<Rightarrow> 'b io) \<Rightarrow> 'b io" where
  "io_bind m f = (\<lambda>st. case m st of (Inl e, st') \<Rightarrow> (Inl e, st') | (Inr x, st') \<Rightarrow> f x st')"

definition io_lift :: "exn + 'a \<Rightarrow> 'a io" where
  "io_lift r = (\<lambda>st. (r, st))"

definition io_when :: "bool \<Rightarrow> unit io \<Rightarrow> unit io" where
  "io_when b m = (if b then m else io_return ())"

text \<open>\<open>try: m except: h\<close> and \<open>try: m finally: fin\<close>.\<close>

definition io_catch :: "'a io \<Rightarrow> (exn \<Rightarrow> 'a io) \<Rightarrow> 'a io" where
  "io_catch m h = (\<lambda>st. case m st of (Inl e, st') \<Rightarrow> h e st' | (Inr x, st') \<Rightarrow> (Inr x, st'))"

definition io_finally :: "'a io \<Rightarrow> unit io \<Rightarrow> 'a io" where
  "io_finally m fin =
     (\<lambda>st. case m st of
              (r, st') \<Rightarrow> (case fin st' of (Inl e, st'') \<Rightarrow> (Inl e, st'') | (Inr u, st'') \<Rightarrow> (r, st'')))"

text \<open>
  \<open>print(line)\<close> writes the line to the console, or raises \<open>UnicodeEncodeError\<close> and writes
  nothing when the line cannot be encoded.
\<close>

definition py_print :: "ustr \<Rightarrow> unit io" where
  "py_print line =
     (\<lambda>st. if utf8_encodable line then (Inr (), st\<lparr>console := console st @ [line]\<rparr>)
           else (Inl (unicode_encode_error line), st))"

text \<open>
  \<open>time.sleep(t)\<close> for an integer \<open>t\<close>: the duration is first converted to nanoseconds in
  64 bits, which raises \<open>OverflowError\<close> when it does not fit; a negative duration then
  raises \<open>ValueError\<close>.
\<close>

definition py_sleep :: "int \<Rightarrow> unit io" where
  "py_sleep t =
     (\<lambda>st. if t < - 9223372036 \<or> 9223372036 < t
             then (Inl (Exception (asc ''timestamp too large to convert to C _PyTime_t'')), st)
           else if t < 0
             then (Inl (Exception (asc ''sleep length must be non-negative'')), st)
           else (Inr (), st\<lparr>slept := slept st + t\<rparr>))"

section \<open>The browser driver\<close>

text \<open>
  The browser is an external collaborator. An element answers \<open>.text\<close> and
  \<open>.get_attribute("innerHTML")\<close>; a driver answers \<open>get(url)\<close>,
  \<open>find_elements(By.CSS_SELECTOR, s)\<close>, the bounded wait
  \<open>WebDriverWait(driver, 10).until(presence_of_element_located(s))\<close> and
  \<open>find_element(By.CSS_SELECTOR, s)\<close>. Each answer is a value or an exception. Within one
  session the source asks each question at most once, so a session is the record of its
  answers. When \<open>get_attribute\<close> returns \<open>None\<close>, the parser raises \<open>TypeError\<close> on it in the
  next statement of the same \<open>try\<close>: this is the answer \<open>Inl\<close> of \<open>inner_html\<close>.
  \<open>driver.quit()\<close> does not raise: the Chrome driver swallows what goes wrong there.
\<close>

record element =
  elem_text :: "exn + ustr"
  inner_html :: "exn + ustr"

record driver =
  driver_get :: "ustr \<Rightarrow> exn + unit"
  find_elements :: "ustr \<Rightarrow> exn + element list"
  wait_until_present :: "ustr \<Rightarrow> exn + unit"
  find_element :: "ustr \<Rightarrow> exn + element"

section \<open>Python string operations\<close>

text \<open>
  The white-space characters of \<open>str.strip\<close> and of the regular expression class
  \<open>\s\<close>: the code points for which \<open>str.isspace\<close> holds.
\<close>

definition is_space :: "nat \<Rightarrow> bool" where
  "is_space c =
     ((9 \<le> c \<and> c \<le> 13) \<or> (28 \<le> c \<and> c \<le> 32) \<or> c = 133 \<or> c = 160 \<or> c = 5760 \<or>
      (8192 \<le> c \<and> c \<le> 8202) \<or> c = 8232 \<or> c = 8233 \<or> c = 8239 \<or> c = 8287 \<or> c = 12288)"

definition py_strip :: "ustr \<Rightarrow> ustr" where
  "py_strip s = rev (dropWhile is_space (rev (dropWhile is_space s)))"

text \<open>\<open>s.split(c)\<close> for a separator of one character: never the empty list.\<close>

fun py_split :: "nat \<Rightarrow> ustr \<Rightarrow> ustr list" where
  "py_split c [] = [[]]"
| "py_split c (x # xs) =
     (if x = c then [] # py_split c xs
      else (case py_split c xs of [] \<Rightarrow> [[x]] | l # ls \<Rightarrow> (x # l) # ls))"

fun py_join :: "ustr \<Rightarrow> ustr list \<Rightarrow> ustr" where
  "py_join sep [] = []"
| "py_join sep [x] = x"
| "py_join sep (x # y # ys) = x @ sep @ py_join sep (y # ys)"

text \<open>\<open>kw in s\<close>: the string \<open>kw\<close> occurs in \<open>s\<close> as a contiguous substring.\<close>

fun py_in :: "ustr \<Rightarrow> ustr \<Rightarrow> bool" where
  "py_in kw [] = (kw = [])"
| "py_in kw (c # cs) = (take (length kw) (c # cs) = kw \<or> py_in kw cs)"

section \<open>The markup tree and the libraries\<close>

text \<open>
  The tree that the markup parser returns: a tag with its name and children, a text
  string, or a string of another kind (comment, declaration, doctype) that
  \<open>get_text\<close> leaves out.
\<close>

datatype node = Tag ustr "node list" | Text ustr | Comment ustr

text \<open>
  What the program takes from outside itself:
  \<^item> \<open>chrome n opts\<close>: the outcome of the \<open>n\<close>-th call of \<open>webdriver.Chrome(options=opts)\<close>,
    a session or an exception;
  \<^item> \<open>html_parser\<close>: \<open>BeautifulSoup(markup, "html.parser")\<close>, the top-level nodes of the
    tree or an exception;
  \<^item> \<open>str_lower\<close> and \<open>uni_isalnum\<close>: \<open>str.lower\<close> on a string and \<open>str.isalnum\<close> on one
    code point, which are given by tables of the Unicode character database;
  \<^item> \<open>fs_open path append_flag\<close>: whether \<open>open(path, mode)\<close> raises.
\<close>

record chrome_options =
  arguments :: "ustr list"
  experimental_options :: "(ustr \<times> (ustr \<times> int) list) list"

record env =
  chrome :: "nat \<Rightarrow> chrome_options \<Rightarrow> exn + driver"
  html_parser :: "ustr \<Rightarrow> exn + node list"
  str_lower :: "ustr \<Rightarrow> ustr"
  uni_isalnum :: "nat \<Rightarrow> bool"
  fs_open :: "ustr \<Rightarrow> bool \<Rightarrow> exn + unit"

section \<open>The text cleaner\<close>

text \<open>
  \<open>for tag in soup(names): tag.decompose()\<close> removes every tag, at any depth, whose name
  is one of \<open>names\<close>, together with its descendants.
\<close>

fun is_named :: "ustr list \<Rightarrow> node \<Rightarrow> bool" where
  "is_named names (Tag n cs) = (n \<in> set names)"
| "is_named names (Text s) = False"
| "is_named names (Comment s) = False"

fun decompose_in :: "ustr list \<Rightarrow> node \<Rightarrow> node" where
  "decompose_in names (Tag n cs) =
     Tag n (map (decompose_in names) (filter (\<lambda>c. \<not> is_named names c) cs))"
| "decompose_in names (Text s) = Text s"
| "decompose_in names (Comment s) = Comment s"

definition decompose_all :: "ustr list \<Rightarrow> node list \<Rightarrow> node list" where
  "decompose_all names soup = map (decompose_in names) (filter (\<lambda>c. \<not> is_named names c) soup)"

text \<open>
  \<open>soup.get_text(strip=True, separator="\n")\<close>: the text strings of the tree in document
  order, each stripped, the empty ones left out, joined by a newline.
\<close>

fun strings_of :: "node \<Rightarrow> ustr list" where
  "strings_of (Tag n cs) = concat (map strings_of cs)"
| "strings_of (Text s) = [s]"
| "strings_of (Comment s) = []"

definition get_text :: "node list \<Rightarrow> ustr" where
  "get_text soup =
     py_join [10] (filter (\<lambda>s. s \<noteq> []) (map py_strip (concat (map strings_of soup))))"

definition ad_keywords :: "ustr list" where
  "ad_keywords =
     [asc ''ad:'', asc ''hgame:'',
      [26412, 31449, 21457, 24067, 39029],
      [35831, 21247, 20351, 29992, 38750, 27983, 35272, 22120, 35775, 38382, 26412, 31449],
      asc ''www.'', asc ''http'', asc ''.com'']"

text \<open>\<open>any(keyword in line.lower() for keyword in ad_keywords)\<close>\<close>

definition has_ad_keyword :: "env \<Rightarrow> ustr \<Rightarrow> bool" where
  "has_ad_keyword E line = list_ex (\<lambda>keyword. py_in keyword (str_lower E line)) ad_keywords"

text \<open>
  \<open>re.match(r"^[^\w\s]+$", line)\<close>: one or more characters that are neither word
  characters (\<open>isalnum\<close> or underscore) nor white space, up to the end of the string or
  up to a newline that ends the string.
\<close>

definition re_word :: "env \<Rightarrow> nat \<Rightarrow> bool" where
  "re_word E c = (uni_isalnum E c \<or> c = 95)"

definition punctuation_only :: "env \<Rightarrow> ustr \<Rightarrow> bool" where
  "punctuation_only E line =
     (let body = (if line \<noteq> [] \<and> last line = 10 then butlast line else line)
      in body \<noteq> [] \<and> list_all (\<lambda>c. \<not> re_word E c \<and> \<not> is_space c) body)"

text \<open>The loop over the lines, returning \<open>cleaned_lines\<close>.\<close>

fun filter_lines :: "env \<Rightarrow> ustr list \<Rightarrow> ustr list" where
  "filter_lines E [] = []"
| "filter_lines E (line # lines) =
     (if has_ad_keyword E line then filter_lines E lines
      else if py_strip line \<noteq> [] \<and> \<not> punctuation_only E line
           then py_strip line # filter_lines E lines
           else filter_lines E lines)"

definition clean_text :: "env \<Rightarrow> ustr \<Rightarrow> exn + ustr" where
  "clean_text E html_content =
     (case html_parser E html_content of
        Inl e \<Rightarrow> Inl e
      | Inr soup \<Rightarrow>
          let soup1 = decompose_all [asc ''script'', asc ''style'', asc ''ins'', asc ''noscript''] soup;
              soup2 = decompose_all [asc ''a''] soup1;
              text = get_text soup2;
              lines = py_split 10 text;
              cleaned_lines = filter_lines E lines
          in Inr (py_join [10, 10] (filter (\<lambda>line. line \<noteq> []) cleaned_lines)))"

text \<open>
  The specification's reading of a fragment that holds only script, style, hyperlink and
  advertising content: every node is a \<open>script\<close>, \<open>style\<close> or \<open>a\<close> tag, or another tag whose
  children are all of this kind, or a text string of which every line, as the cleaner
  reads it (the string stripped, then split at the newlines), is blank or holds an
  advertising keyword.
\<close>

definition blank_or_ad :: "env \<Rightarrow> ustr \<Rightarrow> bool" where
  "blank_or_ad E line = (py_strip line = [] \<or> has_ad_keyword E line)"

definition ad_text :: "env \<Rightarrow> ustr \<Rightarrow> bool" where
  "ad_text E s = list_all (blank_or_ad E) (py_split 10 (py_strip s))"

fun ad_only :: "env \<Rightarrow> node \<Rightarrow> bool" where
  "ad_only E (Tag n cs) =
     (n = asc ''script'' \<or> n = asc ''style'' \<or> n = asc ''a'' \<or> list_all (ad_only E) cs)"
| "ad_only E (Text s) = ad_text E s"
| "ad_only E (Comment s) = False"

text \<open>
  The cleaned text \<open>y\<close> is plain text for the parser when the parser reads it back as one
  text string equal to \<open>y\<close> (no tag, no character reference), or as nothing when it is
  empty. A cleaned line is trimmed: not empty, no white space at either end, no newline.
\<close>

definition plain_text_for :: "env \<Rightarrow> ustr \<Rightarrow> bool" where
  "plain_text_for E y = (html_parser E y = Inr [Text y] \<or> (y = [] \<and> html_parser E y = Inr []))"

definition trimmed_line :: "ustr \<Rightarrow> bool" where
  "trimmed_line l = (l \<noteq> [] \<and> \<not> is_space (hd l) \<and> \<not> is_space (last l) \<and> 10 \<notin> set l)"

section \<open>Content selector detection\<close>

definition potential_selectors :: "ustr list" where
  "potential_selectors =
     [asc ''div#content'', asc ''div#contenta'', asc ''div.novelcontent'',
      asc ''div.read-content'', asc ''div.article-content'']"

definition msg_selector_detected :: "ustr \<Rightarrow> ustr" where
  "msg_selector_detected s =
     [26816, 27979, 21040, 20869, 23481, 36873, 25321, 22120, 58, 32] @ s"

definition msg_no_selector_detected :: ustr where
  "msg_no_selector_detected =
     [26410, 26816, 27979, 21040, 21512, 36866, 30340, 20869, 23481, 36873, 25321, 22120,
      65292, 20351, 29992, 40664, 35748, 36873, 25321, 22120]"

text \<open>
  The body of the \<open>try\<close> of \<open>detect_content_selector\<close> for one candidate (lines 80 to 83):
  it asks for the elements, tests \<open>elements and len(elements[0].text) > 500\<close>, prints and
  returns the candidate (\<open>Some\<close>), or falls through (\<open>None\<close>). The bare \<open>except\<close> of the loop
  moves on to the next candidate, like the fall through.
\<close>

definition detect_try :: "driver \<Rightarrow> ustr \<Rightarrow> ustr option io" where
  "detect_try d s =
     io_bind (io_lift (find_elements d s)) (\<lambda>elements.
       case elements of
         [] \<Rightarrow> io_return None
       | el # els \<Rightarrow>
           io_bind (io_lift (elem_text el)) (\<lambda>t.
             if length t > 500
             then io_bind (py_print (msg_selector_detected s)) (\<lambda>_. io_return (Some s))
             else io_return None))"

fun detect_loop :: "driver \<Rightarrow> ustr list \<Rightarrow> ustr io" where
  "detect_loop d [] =
     io_bind (py_print msg_no_selector_detected) (\<lambda>_. io_return (asc ''body''))"
| "detect_loop d (s # ss) =
     io_bind (io_catch (detect_try d s) (\<lambda>e. io_return None)) (\<lambda>found.
       case found of
         Some selector \<Rightarrow> io_return selector
       | None \<Rightarrow> detect_loop d ss)"

definition detect_content_selector :: "driver \<Rightarrow> ustr io" where
  "detect_content_selector d = detect_loop d potential_selectors"

text \<open>
  The specification's reading of detection: a candidate qualifies when the lookup
  returns normally with at least one element and the text of the first element is read
  normally and is longer than the threshold.
\<close>

definition qualifies :: "driver \<Rightarrow> ustr \<Rightarrow> bool" where
  "qualifies d s =
     (case find_elements d s of
        Inr (el # els) \<Rightarrow> (case elem_text el of Inr t \<Rightarrow> length t > 500 | Inl e \<Rightarrow> False)
      | _ \<Rightarrow> False)"

definition first_qualifying :: "driver \<Rightarrow> ustr list \<Rightarrow> ustr" where
  "first_qualifying d cands = (case find (qualifies d) cands of Some s \<Rightarrow> s | None \<Rightarrow> asc ''body'')"

section \<open>The single-page scraper\<close>

text \<open>
  \<open>setup_driver\<close> builds the options and calls \<open>webdriver.Chrome\<close>, which returns a session
  or raises.
\<close>

definition driver_options :: "bool \<Rightarrow> chrome_options" where
  "driver_options headless =
     \<lparr>arguments = [asc ''--disable-gpu'', asc ''--no-sandbox'', asc ''--log-level=3'']
                   @ (if headless then [asc ''--headless=new''] else []),
      experimental_options =
        [(asc ''prefs'', [(asc ''profile.default_content_setting_values.cookies'', 1)])]\<rparr>"

definition setup_driver :: "env \<Rightarrow> bool \<Rightarrow> driver io" where
  "setup_driver E headless =
     (\<lambda>st. (chrome E (launched st) (driver_options headless), st\<lparr>launched := Suc (launched st)\<rparr>))"

text \<open>\<open>driver.quit()\<close> releases the session; the Chrome driver swallows what goes wrong there.\<close>

definition driver_quit :: "driver \<Rightarrow> unit io" where
  "driver_quit d = (\<lambda>st. (Inr (), st\<lparr>released := Suc (released st)\<rparr>))"

text \<open>
  The dictionary that \<open>scrape_text\<close> returns: the keys \<open>url\<close> and \<open>content\<close> are always
  there, \<open>selector\<close> and \<open>error\<close> may be absent.
\<close>

record scrape_result =
  url :: ustr
  content :: ustr
  selector :: "ustr option"
  error :: "ustr option"

text \<open>\<open>not selector\<close>: the selector is \<open>None\<close> or the empty string.\<close>

definition not_selector :: "ustr option \<Rightarrow> bool" where
  "not_selector sel = (sel = None \<or> sel = Some [])"

definition msg_visiting :: "ustr \<Rightarrow> ustr" where
  "msg_visiting u = [27491, 22312, 35775, 38382, 58, 32] @ u"

definition msg_manual_verify :: "int \<Rightarrow> ustr" where
  "msg_manual_verify t =
     [35831, 22312, 32] @ str_int t @
     [32, 31186, 20869, 23436, 25104, 23433, 20840, 39564, 35777, 65288, 22914, 26524, 26377,
      65289, 46, 46, 46]"

definition msg_region_not_found :: "ustr \<Rightarrow> ustr" where
  "msg_region_not_found s =
     [20869, 23481, 21306, 22495, 26410, 25214, 21040, 65292, 20351, 29992, 36873, 25321,
      22120, 58, 32] @ s"

definition msg_incomplete :: "ustr \<Rightarrow> ustr" where
  "msg_incomplete u =
     [35686, 21578, 58, 32, 20174, 32] @ u @
     [32, 25235, 21462, 30340, 20869, 23481, 21487, 33021, 19981, 23436, 25972]"

definition msg_scrape_error :: "ustr \<Rightarrow> exn \<Rightarrow> ustr" where
  "msg_scrape_error u e =
     [25235, 21462, 32] @ u @ [32, 26102, 21457, 29983, 38169, 35823, 58, 32] @ str_of_exn e"

text \<open>
  The body of the \<open>try\<close> of \<open>scrape_text\<close> (lines 95 to 127), run on the session \<open>d\<close>:
  navigation, the manual verification wait unless headless, the settle wait, detection
  when \<open>not selector\<close>, the bounded wait whose exception is only reported, the lookup of
  the element, its inner markup, the cleaning, the warning on a short text, the result.
\<close>

definition scrape_try :: "env \<Rightarrow> driver \<Rightarrow> ustr \<Rightarrow> ustr option \<Rightarrow> int \<Rightarrow> bool \<Rightarrow> scrape_result io" where
  "scrape_try E d u sel manual_verify_time headless =
     io_bind (io_lift (driver_get d u)) (\<lambda>_.
     io_bind (py_print (msg_visiting u)) (\<lambda>_.
     io_bind (io_when (\<not> headless)
                (io_bind (py_print (msg_manual_verify manual_verify_time)) (\<lambda>_.
                 py_sleep manual_verify_time))) (\<lambda>_.
     io_bind (py_sleep 3) (\<lambda>_.
     io_bind (case sel of
                None \<Rightarrow> detect_content_selector d
              | Some s \<Rightarrow> if s = [] then detect_content_selector d else io_return s) (\<lambda>s.
     io_bind (io_catch (io_lift (wait_until_present d s))
                (\<lambda>e. py_print (msg_region_not_found s))) (\<lambda>_.
     io_bind (io_lift (find_element d s)) (\<lambda>content_element.
     io_bind (io_lift (inner_html content_element)) (\<lambda>content_html.
     io_bind (io_lift (clean_text E content_html)) (\<lambda>cleaned_text.
     io_bind (io_when (length cleaned_text < 200) (py_print (msg_incomplete u))) (\<lambda>_.
     io_return \<lparr>url = u, content = cleaned_text, selector = Some s, error = None\<rparr>))))))))))"

text \<open>The handler of \<open>except Exception as e\<close> (lines 129 to 131).\<close>

definition scrape_except :: "ustr \<Rightarrow> exn \<Rightarrow> scrape_result io" where
  "scrape_except u e =
     io_bind (py_print (msg_scrape_error u e)) (\<lambda>_.
     io_return \<lparr>url = u, content = [], selector = None, error = Some (str_of_exn e)\<rparr>)"

text \<open>
  \<open>scrape_text\<close>: the session is acquired before the \<open>try\<close> (line 93), so what
  \<open>setup_driver\<close> raises is raised by \<open>scrape_text\<close>; the \<open>finally\<close> releases the session.
\<close>

definition scrape_text :: "env \<Rightarrow> ustr \<Rightarrow> ustr option \<Rightarrow> int \<Rightarrow> bool \<Rightarrow> scrape_result io" where
  "scrape_text E u sel manual_verify_time headless =
     io_bind (setup_driver E headless) (\<lambda>d.
       io_finally
         (io_catch (scrape_try E d u sel manual_verify_time headless) (scrape_except u))
         (driver_quit d))"

text \<open>
  The messages of the exceptions that a session, or the parser, raises can be printed:
  they hold no surrogate.
\<close>

definition driver_errors_printable :: "driver \<Rightarrow> bool" where
  "driver_errors_printable d =
     ((\<forall>u e. driver_get d u = Inl e \<longrightarrow> utf8_encodable (str_of_exn e)) \<and>
      (\<forall>s e. find_element d s = Inl e \<longrightarrow> utf8_encodable (str_of_exn e)) \<and>
      (\<forall>s el e. find_element d s = Inr el \<longrightarrow> inner_html el = Inl e \<longrightarrow>
                 utf8_encodable (str_of_exn e)))"

definition parser_errors_printable :: "env \<Rightarrow> bool" where
  "parser_errors_printable E =
     (\<forall>html e. html_parser E html = Inl e \<longrightarrow> utf8_encodable (str_of_exn e))"

section \<open>The batch orchestrator\<close>

definition msg_batch_start :: "nat \<Rightarrow> nat \<Rightarrow> ustr" where
  "msg_batch_start i n =
     [10, 61, 61, 61, 61, 61, 32, 24320, 22987, 25235, 21462, 31532, 32] @ str_nat i @ [47] @
     str_nat n @ [32, 20010, 85, 82, 76, 32, 61, 61, 61, 61, 61]"

text \<open>
  The loop of \<open>batch_scrape\<close> (lines 142 to 149) from the \<open>i\<close>-th URL on, \<open>n\<close> being
  \<open>len(urls)\<close>: it returns \<open>all_content\<close>.
\<close>

fun batch_loop ::
  "env \<Rightarrow> nat \<Rightarrow> int \<Rightarrow> bool \<Rightarrow> nat \<Rightarrow> ustr list \<Rightarrow> ustr option \<Rightarrow> scrape_result list
     \<Rightarrow> scrape_result list io" where
  "batch_loop E n verify_time headless i [] sel all_content = io_return all_content"
| "batch_loop E n verify_time headless i (u # us) sel all_content =
     io_bind (py_print (msg_batch_start i n)) (\<lambda>_.
     io_bind (scrape_text E u sel verify_time headless) (\<lambda>result.
       batch_loop E n verify_time headless (Suc i) us
         (if i = 1 \<and> not_selector sel \<and> selector result \<noteq> None then selector result else sel)
         (all_content @ [result])))"

text \<open>
  The specification's reading of the rest of a batch: every remaining URL is scraped with
  one fixed selector \<open>s\<close>.
\<close>

fun scrape_each ::
  "env \<Rightarrow> nat \<Rightarrow> int \<Rightarrow> bool \<Rightarrow> nat \<Rightarrow> ustr list \<Rightarrow> ustr \<Rightarrow> scrape_result list
     \<Rightarrow> scrape_result list io" where
  "scrape_each E n verify_time headless i [] s all_content = io_return all_content"
| "scrape_each E n verify_time headless i (u # us) s all_content =
     io_bind (py_print (msg_batch_start i n)) (\<lambda>_.
     io_bind (scrape_text E u (Some s) verify_time headless) (\<lambda>result.
       scrape_each E n verify_time headless (Suc i) us s (all_content @ [result])))"

text \<open>The labelled section of one result and the combined text (lines 152 to 162).\<close>

definition labelled_section :: "scrape_result \<Rightarrow> ustr" where
  "labelled_section result = [26469, 28304, 58, 32] @ url result @ [10, 10] @ content result"

definition combined_text :: "scrape_result list \<Rightarrow> ustr" where
  "combined_text all_content =
     [10, 10] @ replicate 50 61 @
     py_join [10, 10] (map labelled_section (filter (\<lambda>result. content result \<noteq> []) all_content))"

text \<open>
  \<open>with open(output_file, mode, encoding="utf-8") as file: file.write(text)\<close>: \<open>open\<close> may
  raise; when it returns, mode \<open>a\<close> has kept what the file held (or created it empty) and
  mode \<open>w\<close> has truncated it. \<open>file.write\<close> then encodes the whole text and appends it, or
  raises \<open>UnicodeEncodeError\<close> and writes nothing.
\<close>

definition write_file :: "env \<Rightarrow> ustr \<Rightarrow> bool \<Rightarrow> ustr \<Rightarrow> unit io" where
  "write_file E output_file append_flag txt =
     io_bind (io_lift (fs_open E output_file append_flag)) (\<lambda>_.
       (\<lambda>st.
          let opened = (if append_flag
                        then (case files st output_file of None \<Rightarrow> [] | Some old \<Rightarrow> old)
                        else [])
          in if utf8_encodable txt
             then (Inr (), st\<lparr>files := (files st)(output_file \<mapsto> opened @ txt)\<rparr>)
             else (Inl (unicode_encode_error txt),
                   st\<lparr>files := (files st)(output_file \<mapsto> opened)\<rparr>)))"

definition msg_batch_done :: ustr where
  "msg_batch_done =
     [10, 61, 61, 61, 61, 61, 32, 25209, 37327, 25235, 21462, 23436, 25104, 32,
      61, 61, 61, 61, 61]"

definition msg_saved :: "nat \<Rightarrow> ustr \<Rightarrow> ustr" where
  "msg_saved k output_file =
     [24050, 23558, 32] @ str_nat k @
     [32, 20010, 39029, 38754, 30340, 20869, 23481, 20445, 23384, 21040, 58, 32] @ output_file"

definition status_success :: ustr where
  "status_success = [25104, 21151]"

definition status_failure :: "ustr \<Rightarrow> ustr" where
  "status_failure reason = [22833, 36133, 58, 32] @ reason"

definition unknown_reason :: ustr where
  "unknown_reason = [26410, 30693, 21407, 22240]"

text \<open>The status line of one result (lines 176 to 179).\<close>

definition status_of :: "scrape_result \<Rightarrow> ustr" where
  "status_of result =
     (if content result \<noteq> [] then status_success
      else status_failure (case error result of Some e \<Rightarrow> e | None \<Rightarrow> unknown_reason))"

definition status_line :: "scrape_result \<Rightarrow> ustr" where
  "status_line result = [45, 32] @ url result @ [58, 32] @ status_of result"

fun print_statuses :: "scrape_result list \<Rightarrow> unit io" where
  "print_statuses [] = io_return ()"
| "print_statuses (result # results) =
     io_bind (py_print (status_line result)) (\<lambda>_. print_statuses results)"

definition batch_scrape ::
  "env \<Rightarrow> ustr list \<Rightarrow> ustr \<Rightarrow> ustr option \<Rightarrow> int \<Rightarrow> bool \<Rightarrow> bool \<Rightarrow> unit io" where
  "batch_scrape E urls output_file sel verify_time headless append_flag =
     io_bind (batch_loop E (length urls) verify_time headless 1 urls sel []) (\<lambda>all_content.
     io_bind (write_file E output_file append_flag (combined_text all_content)) (\<lambda>_.
     io_bind (py_print msg_batch_done) (\<lambda>_.
     io_bind (py_print (msg_saved (length (filter (\<lambda>r. content r \<noteq> []) all_content)) output_file))
       (\<lambda>_.
     print_statuses all_content))))"

section \<open>Example collaborators\<close>

definition init_sys :: sys where
  "init_sys = \<lparr>launched = 0, released = 0, slept = 0, console = [], files = Map.empty\<rparr>"

definition long_text :: ustr where
  "long_text = replicate 501 120"

definition elem_of :: "ustr \<Rightarrow> ustr \<Rightarrow> element" where
  "elem_of t h = \<lparr>elem_text = Inr t, inner_html = Inr h\<rparr>"

text \<open>
  A session whose page has a short \<open>div#content\<close>, raises on the lookup of
  \<open>div#contenta\<close>, and has a long \<open>div.novelcontent\<close>.
\<close>

definition third_candidate_driver :: driver where
  "third_candidate_driver =
     \<lparr>driver_get = (\<lambda>u. Inr ()),
      find_elements = (\<lambda>s.
         if s = asc ''div#content'' then Inr [elem_of (asc ''short'') (asc ''short'')]
         else if s = asc ''div#contenta'' then Inl (Exception (asc ''invalid selector''))
         else if s = asc ''div.novelcontent'' then Inr [elem_of long_text long_text]
         else Inr []),
      wait_until_present = (\<lambda>s. Inr ()),
      find_element = (\<lambda>s. Inl (Exception (asc ''no such element'')))\<rparr>"

text \<open>
  A session whose page holds one element, found by the selector \<open>sel\<close>, with a long
  rendered text and the inner markup \<open>html\<close>; and a session whose navigation fails.
\<close>

definition page_driver :: "ustr \<Rightarrow> ustr \<Rightarrow> driver" where
  "page_driver sel html =
     \<lparr>driver_get = (\<lambda>u. Inr ()),
      find_elements = (\<lambda>s. if s = sel then Inr [elem_of long_text html] else Inr []),
      wait_until_present = (\<lambda>s. if s = sel then Inr () else Inl (Exception (asc ''timeout''))),
      find_element = (\<lambda>s. if s = sel then Inr (elem_of long_text html)
                           else Inl (Exception (asc ''no such element'')))\<rparr>"

definition offline_driver :: driver where
  "offline_driver =
     \<lparr>driver_get = (\<lambda>u. Inl (Exception (asc ''net::ERR_NAME_NOT_RESOLVED''))),
      find_elements = (\<lambda>s. Inr []),
      wait_until_present = (\<lambda>s. Inl (Exception (asc ''timeout''))),
      find_element = (\<lambda>s. Inl (Exception (asc ''no such element'')))\<rparr>"

text \<open>
  Case mapping and \<open>isalnum\<close> on ASCII and the CJK ideographs, and the parse of a fragment
  that holds no tag: one text string, with the character references of the ampersand and
  of the angle brackets decoded.
\<close>

definition basic_lower :: "ustr \<Rightarrow> ustr" where
  "basic_lower s = map (\<lambda>c. if 65 \<le> c \<and> c \<le> 90 then c + 32 else c) s"

definition basic_isalnum :: "nat \<Rightarrow> bool" where
  "basic_isalnum c =
     ((48 \<le> c \<and> c \<le> 57) \<or> (65 \<le> c \<and> c \<le> 90) \<or> (97 \<le> c \<and> c \<le> 122) \<or>
      (19968 \<le> c \<and> c \<le> 40959))"

function decode_refs :: "ustr \<Rightarrow> ustr" where
  "decode_refs [] = []"
| "decode_refs (c # cs) =
     (if c = 38 \<and> take 4 cs = asc ''amp;'' then 38 # decode_refs (drop 4 cs)
      else if c = 38 \<and> take 3 cs = asc ''lt;'' then 60 # decode_refs (drop 3 cs)
      else if c = 38 \<and> take 3 cs = asc ''gt;'' then 62 # decode_refs (drop 3 cs)
      else c # decode_refs cs)"
  by pat_completeness auto
termination
  by (relation "measure length") auto

definition text_parser :: "ustr \<Rightarrow> exn + node list" where
  "text_parser s = Inr (if s = [] then [] else [Text (decode_refs s)])"

definition env_of :: "(nat \<Rightarrow> exn + driver) \<Rightarrow> env" where
  "env_of sessions =
     \<lparr>chrome = (\<lambda>n opts. sessions n),
      html_parser = text_parser,
      str_lower = basic_lower,
      uni_isalnum = basic_isalnum,
      fs_open = (\<lambda>path append_flag. Inr ())\<rparr>"

text \<open>
  Five worlds: every launch gives a page with a long \<open>div.novelcontent\<close>; pages with a
  \<open>div#content\<close> but the second launch offline; every launch offline; a machine on which
  Chrome does not start; and pages whose content is a single advertising line.
\<close>

definition novel_env :: env where
  "novel_env = env_of (\<lambda>n. Inr (page_driver (asc ''div.novelcontent'') (asc ''Chapter one'')))"

definition second_offline_env :: env where
  "second_offline_env =
     env_of (\<lambda>n. if n = 1 then Inr offline_driver
                 else Inr (page_driver (asc ''div#content'') (asc ''Chapter one'')))"

definition offline_env :: env where
  "offline_env = env_of (\<lambda>n. Inr offline_driver)"

definition no_chrome_env :: env where
  "no_chrome_env = env_of (\<lambda>n. Inl (Exception (asc ''chromedriver not found'')))"

definition ad_page_env :: env where
  "ad_page_env = env_of (\<lambda>n. Inr (page_driver (asc ''div#content'') (asc ''www.example.com'')))"

text \<open>
  A fragment with a script, an advertising line, a hyperlink and a second advertising
  line, its tree, and a world whose parser knows this fragment.
\<close>

definition ad_fragment :: ustr where
  "ad_fragment = asc ''<script>x()</script> AD: buy <a href=u>go</a>visit www.example.com''"

definition ad_tree :: "node list" where
  "ad_tree =
     [Tag (asc ''script'') [Text (asc ''x()'')],
      Text (asc '' AD: buy ''),
      Tag (asc ''a'') [Text (asc ''go'')],
      Text (asc ''visit www.example.com'')]"

definition ad_fragment_env :: env where
  "ad_fragment_env =
     (env_of (\<lambda>n. Inr offline_driver))
       \<lparr>html_parser := (\<lambda>s. if s = ad_fragment then Inr ad_tree else text_parser s)\<rparr>"

section \<open>Properties of the text cleaner\<close>

lemmas clean_defs = clean_text_def env_of_def text_parser_def asc_def decompose_all_def get_text_def
      py_strip_def is_space_def has_ad_keyword_def ad_keywords_def basic_lower_def punctuation_only_def
      re_word_def basic_isalnum_def

lemma py_split_nonempty: "py_split c s \<noteq> []"
  by (induction s) (auto split: list.splits)

lemma py_split_append_sep: "py_split c (a @ c # b) = py_split c a @ py_split c b"
  by (induction a) (auto split: list.splits simp add: py_split_nonempty)

lemma py_split_join:
  "xs \<noteq> [] \<Longrightarrow> py_split c (py_join [c] xs) = concat (map (py_split c) xs)"
  by (induction "[c]" xs rule: py_join.induct) (simp_all add: py_split_append_sep)

lemma filter_lines_dropped:
  "list_all (blank_or_ad E) ls \<Longrightarrow> filter_lines E ls = []"
  by (induction ls) (auto simp add: blank_or_ad_def)

lemma is_named_decompose_in: "is_named B (decompose_in A n) = is_named B n"
  by (cases n) simp_all

lemma strings_of_decomposed:
  assumes "set [asc ''script'', asc ''style'', asc ''a''] \<subseteq> set A \<union> set B"
  shows "ad_only E n \<Longrightarrow> \<not> is_named A n \<Longrightarrow> \<not> is_named B n \<Longrightarrow>
         \<forall>s \<in> set (strings_of (decompose_in B (decompose_in A n))). ad_text E s"
proof (induction n)
  case (Tag name cs)
  from Tag.prems assms have "list_all (ad_only E) cs" by auto
  with Tag.IH show ?case
    by (auto simp add: list_all_iff is_named_decompose_in)
qed simp_all

lemma texts_of_decomposed:
  assumes "set [asc ''script'', asc ''style'', asc ''a''] \<subseteq> set A \<union> set B"
    and "list_all (ad_only E) soup"
  shows "\<forall>s \<in> set (concat (map strings_of (decompose_all B (decompose_all A soup)))). ad_text E s"
  using assms(2) strings_of_decomposed [OF assms(1)]
  by (auto simp add: decompose_all_def list_all_iff is_named_decompose_in)

lemma get_text_lines:
  assumes "\<forall>s \<in> set (concat (map strings_of soup)). ad_text E s"
  shows "list_all (blank_or_ad E) (py_split 10 (get_text soup))"
proof -
  let ?xs = "filter (\<lambda>s. s \<noteq> []) (map py_strip (concat (map strings_of soup)))"
  show ?thesis
  proof (cases "?xs = []")
    case True
    then show ?thesis by (simp add: get_text_def blank_or_ad_def py_strip_def)
  next
    case False
    have "\<forall>x \<in> set ?xs. list_all (blank_or_ad E) (py_split 10 x)"
      using assms by (auto simp add: ad_text_def)
    then show ?thesis
      unfolding get_text_def py_split_join [OF False]
      by (auto simp add: list_all_iff)
  qed
qed

text \<open>
  Claim C8. When the parser returns, for a fragment, a tree that holds only script,
  style and hyperlink tags and text whose lines are blank or hold an advertising
  keyword, \<open>clean_text\<close> returns normally and its value is the empty string.
\<close>

theorem clean_text_ad_only_empty:
  assumes "html_parser E html = Inr soup" and "list_all (ad_only E) soup"
  shows "clean_text E html = Inr []"
proof -
  let ?A = "[asc ''script'', asc ''style'', asc ''ins'', asc ''noscript'']"
  have "set [asc ''script'', asc ''style'', asc ''a''] \<subseteq> set ?A \<union> set [asc ''a'']" by simp
  from texts_of_decomposed [OF this assms(2)]
  have "list_all (blank_or_ad E) (py_split 10 (get_text (decompose_all [asc ''a''] (decompose_all ?A soup))))"
    by (rule get_text_lines)
  then have "filter_lines E (py_split 10 (get_text (decompose_all [asc ''a''] (decompose_all ?A soup)))) = []"
    by (rule filter_lines_dropped)
  then show ?thesis using assms(1) by (simp add: clean_text_def)
qed

theorem clean_text_ad_only_empty_witness:
  "html_parser ad_fragment_env ad_fragment = Inr ad_tree
   \<and> list_all (ad_only ad_fragment_env) ad_tree
   \<and> clean_text ad_fragment_env ad_fragment = Inr []"
proof -
  have p: "html_parser ad_fragment_env ad_fragment = Inr ad_tree"
    by (simp add: ad_fragment_env_def)
  have a: "list_all (ad_only ad_fragment_env) ad_tree"
    by (simp add: ad_tree_def ad_fragment_env_def ad_text_def blank_or_ad_def clean_defs)
  from clean_text_ad_only_empty [OF p a] p a show ?thesis by simp
qed

lemma last_dropWhile_nonempty:
  "dropWhile P xs \<noteq> [] \<Longrightarrow> last (dropWhile P xs) = last xs"
  by (induction xs) (auto split: if_splits)

lemma py_strip_Nil: "py_strip [] = []"
  by (simp add: py_strip_def)

lemma py_strip_id:
  assumes "s \<noteq> []" and "\<not> is_space (hd s)" and "\<not> is_space (last s)"
  shows "py_strip s = s"
proof -
  have "dropWhile is_space s = s" using assms(2) by (simp add: dropWhile_eq_self_iff)
  moreover have "dropWhile is_space (rev s) = rev s"
    using assms(1,3) by (simp add: dropWhile_eq_self_iff hd_rev)
  ultimately show ?thesis by (simp add: py_strip_def)
qed

lemma py_strip_ends:
  assumes "py_strip s \<noteq> []"
  shows "\<not> is_space (hd (py_strip s)) \<and> \<not> is_space (last (py_strip s))"
proof -
  let ?t = "dropWhile is_space s"
  let ?u = "dropWhile is_space (rev ?t)"
  from assms have u: "?u \<noteq> []" by (simp add: py_strip_def)
  have t: "?t \<noteq> []"
  proof
    assume "?t = []"
    with u show False by simp
  qed
  have "\<not> is_space (hd ?u)" using u by (rule hd_dropWhile)
  moreover have "last ?u = last (rev ?t)" using u by (rule last_dropWhile_nonempty)
  then have "last ?u = hd ?t" using t by (simp add: last_rev)
  moreover have "\<not> is_space (hd ?t)" using t by (rule hd_dropWhile)
  ultimately show ?thesis using u by (simp add: py_strip_def hd_rev last_rev)
qed

lemma set_py_strip: "set (py_strip s) \<subseteq> set s"
  by (auto simp add: py_strip_def dest!: set_dropWhileD)

lemma py_split_no_sep: "\<forall>l \<in> set (py_split c s). c \<notin> set l"
  by (induction s) (auto split: list.splits)

lemma py_split_single: "c \<notin> set s \<Longrightarrow> py_split c s = [s]"
  by (induction s) auto

lemma filter_lines_image: "set (filter_lines E ls) \<subseteq> py_strip ` set ls"
  by (induction ls) auto

lemma filter_lines_trimmed:
  "\<forall>l \<in> set ls. 10 \<notin> set l \<Longrightarrow> \<forall>l \<in> set (filter_lines E ls). trimmed_line l"
  using set_py_strip by (induction ls) (auto simp add: trimmed_line_def py_strip_ends)

lemma cleaned_lines_trimmed:
  "\<forall>l \<in> set (filter (\<lambda>l. l \<noteq> []) (filter_lines E (py_split 10 t))). trimmed_line l"
  using filter_lines_trimmed [of "py_split 10 t" E] py_split_no_sep [of 10 t] by auto

lemma split_join_lines:
  assumes "\<forall>l \<in> set ls. 10 \<notin> set l"
  shows "set (py_split 10 (py_join [10, 10] ls)) \<subseteq> insert [] (set ls)"
    and "ls \<noteq> [] \<Longrightarrow> set ls \<subseteq> set (py_split 10 (py_join [10, 10] ls))"
  using assms
proof (induction "[10, 10::nat]" ls rule: py_join.induct)
  case 1
  { case 1 show ?case by simp next case 2 then show ?case by simp }
next
  case (2 x)
  { case 1 then show ?case by (simp add: py_split_single)
  next case 2 then show ?case by (simp add: py_split_single) }
next
  case (3 x y ys)
  have eq: "py_split 10 (py_join [10, 10] (x # y # ys)) = x # [] # py_split 10 (py_join [10, 10] (y # ys))"
    if "10 \<notin> set x" using that by (simp add: py_split_append_sep py_split_single)
  { case 1 with 3(1) show ?case by (auto simp add: eq simp del: py_join.simps)
  next case 2 with 3(2) show ?case by (auto simp add: eq simp del: py_join.simps) }
qed

lemma py_join_ends:
  assumes "ls \<noteq> []" and "\<forall>l \<in> set ls. l \<noteq> []"
  shows "py_join sep ls \<noteq> [] \<and> hd (py_join sep ls) = hd (hd ls) \<and> last (py_join sep ls) = last (last ls)"
  using assms by (induction sep ls rule: py_join.induct) auto

lemma py_strip_joined:
  assumes "\<forall>l \<in> set ls. trimmed_line l"
  shows "py_strip (py_join [10, 10] ls) = py_join [10, 10] ls"
proof (cases "ls = []")
  case True
  then show ?thesis by (simp add: py_strip_Nil)
next
  case False
  with assms have "\<forall>l \<in> set ls. l \<noteq> []" and "trimmed_line (hd ls)" and "trimmed_line (last ls)"
    by (auto simp add: trimmed_line_def)
  with False py_join_ends [of ls "[10, 10]"] show ?thesis
    by (intro py_strip_id) (auto simp add: trimmed_line_def)
qed

lemma get_text_plain:
  assumes "py_strip y = y"
  shows "get_text (decompose_all B (decompose_all A [Text y])) = y"
    and "y = [] \<Longrightarrow> get_text (decompose_all B (decompose_all A [])) = y"
  using assms by (simp_all add: get_text_def decompose_all_def)

lemma clean_text_value:
  "html_parser E x = Inr soup \<Longrightarrow>
   clean_text E x =
     Inr (py_join [10, 10] (filter (\<lambda>l. l \<noteq> [])
       (filter_lines E (py_split 10 (get_text (decompose_all [asc ''a'']
          (decompose_all [asc ''script'', asc ''style'', asc ''ins'', asc ''noscript''] soup)))))))"
  by (simp add: clean_text_def)

text \<open>
  Claim C9 says that every line of \<open>clean(clean(x))\<close> is a line of \<open>clean(x)\<close>, for every
  string \<open>x\<close>. The second cleaning parses the cleaned text as markup again: the text
  \<open>x &amp;lt; y\<close> is cleaned to \<open>x &lt; y\<close>, and that to the new line \<open>x < y\<close>. And a
  cleaned text of one line of punctuation is cleaned to the empty string, whose only line
  is the empty line.
\<close>

theorem reclean_new_line_counterexample:
  "clean_text novel_env (asc ''x &amp;lt; y'') = Inr (asc ''x &lt; y'')
   \<and> clean_text novel_env (asc ''x &lt; y'') = Inr (asc ''x < y'')
   \<and> \<not> set (py_split 10 (asc ''x < y'')) \<subseteq> set (py_split 10 (asc ''x &lt; y''))
   \<and> clean_text novel_env (asc ''ad:'' @ [10] @ asc '' ... '' @ [10] @ asc ''ad:'') = Inr (asc ''...'')
   \<and> clean_text novel_env (asc ''...'') = Inr []
   \<and> \<not> set (py_split 10 []) \<subseteq> set (py_split 10 (asc ''...''))"
  by (simp add: novel_env_def clean_defs)

text \<open>
  Claim C9, amended. For every string \<open>x\<close> whose cleaned text \<open>y\<close> is plain text for the
  parser, cleaning \<open>y\<close> returns normally and every line of the result that is not empty
  is a line of \<open>y\<close>.
\<close>

theorem reclean_plain_text_lines:
  assumes "clean_text E x = Inr y" and "plain_text_for E y"
  shows "\<exists>z. clean_text E y = Inr z \<and>
              (\<forall>l \<in> set (py_split 10 z). l \<noteq> [] \<longrightarrow> l \<in> set (py_split 10 y))"
proof -
  let ?A = "[asc ''script'', asc ''style'', asc ''ins'', asc ''noscript'']"
  let ?B = "[asc ''a'']"
  from assms(1) obtain soup where soup: "html_parser E x = Inr soup"
    by (auto simp add: clean_text_def split: sum.splits)
  define ls where "ls = filter (\<lambda>l. l \<noteq> [])
     (filter_lines E (py_split 10 (get_text (decompose_all ?B (decompose_all ?A soup)))))"
  have y: "y = py_join [10, 10] ls"
    using assms(1) clean_text_value [OF soup] by (simp add: ls_def)
  have ls_trimmed: "\<forall>l \<in> set ls. trimmed_line l"
    unfolding ls_def by (rule cleaned_lines_trimmed)
  then have ls_free: "\<forall>l \<in> set ls. 10 \<notin> set l" by (simp add: trimmed_line_def)
  have strip_y: "py_strip y = y" unfolding y using ls_trimmed by (rule py_strip_joined)
  define ms where "ms = filter (\<lambda>l. l \<noteq> []) (filter_lines E (py_split 10 y))"
  have z: "clean_text E y = Inr (py_join [10, 10] ms)"
    using assms(2) get_text_plain [OF strip_y, of ?B ?A]
    unfolding plain_text_for_def ms_def
    by (auto simp add: clean_text_value)
  have ms_trimmed: "\<forall>l \<in> set ms. trimmed_line l"
    unfolding ms_def by (rule cleaned_lines_trimmed)
  then have ms_free: "\<forall>l \<in> set ms. 10 \<notin> set l" by (simp add: trimmed_line_def)
  have ms_ls: "set ms \<subseteq> set ls"
  proof
    fix m assume m: "m \<in> set ms"
    then have "m \<noteq> []" by (simp add: ms_def)
    from m filter_lines_image [of E "py_split 10 y"] obtain l
      where l: "l \<in> set (py_split 10 y)" and ml: "m = py_strip l"
      by (auto simp add: ms_def)
    from l split_join_lines(1) [OF ls_free] have "l = [] \<or> l \<in> set ls" by (auto simp add: y)
    with \<open>m \<noteq> []\<close> ml have "l \<in> set ls" by (auto simp add: py_strip_Nil)
    with ls_trimmed have "py_strip l = l" by (auto simp add: trimmed_line_def intro: py_strip_id)
    with ml \<open>l \<in> set ls\<close> show "m \<in> set ls" by simp
  qed
  have "\<forall>l \<in> set (py_split 10 (py_join [10, 10] ms)). l \<noteq> [] \<longrightarrow> l \<in> set (py_split 10 y)"
  proof (intro ballI impI)
    fix l assume l: "l \<in> set (py_split 10 (py_join [10, 10] ms))" and "l \<noteq> []"
    with split_join_lines(1) [OF ms_free] have "l \<in> set ms" by auto
    with ms_ls have "l \<in> set ls" by auto
    then have "ls \<noteq> []" by auto
    from split_join_lines(2) [OF ls_free this] \<open>l \<in> set ls\<close> show "l \<in> set (py_split 10 y)"
      by (auto simp add: y)
  qed
  with z show ?thesis by simp
qed

theorem reclean_plain_text_lines_witness:
  "clean_text novel_env (asc ''one'' @ [10] @ asc '' ... '' @ [10] @ asc ''two'') =
     Inr (asc ''one'' @ [10, 10] @ asc ''...'' @ [10, 10] @ asc ''two'')
   \<and> plain_text_for novel_env (asc ''one'' @ [10, 10] @ asc ''...'' @ [10, 10] @ asc ''two'')
   \<and> (\<exists>z. clean_text novel_env (asc ''one'' @ [10, 10] @ asc ''...'' @ [10, 10] @ asc ''two'') = Inr z
          \<and> (\<forall>l \<in> set (py_split 10 z). l \<noteq> [] \<longrightarrow>
                l \<in> set (py_split 10 (asc ''one'' @ [10, 10] @ asc ''...'' @ [10, 10] @ asc ''two''))))"
proof -
  have c: "clean_text novel_env (asc ''one'' @ [10] @ asc '' ... '' @ [10] @ asc ''two'') =
     Inr (asc ''one'' @ [10, 10] @ asc ''...'' @ [10, 10] @ asc ''two'')"
    by (simp add: novel_env_def clean_defs)
  have p: "plain_text_for novel_env (asc ''one'' @ [10, 10] @ asc ''...'' @ [10, 10] @ asc ''two'')"
    by (simp add: plain_text_for_def novel_env_def env_of_def text_parser_def asc_def)
  from reclean_plain_text_lines [OF c p] c p show ?thesis by blast
qed

section \<open>Properties of the encoding\<close>

lemma utf8_encodable_Nil: "utf8_encodable []"
  by (simp add: utf8_encodable_def)

lemma utf8_encodable_Cons: "utf8_encodable (c # s) = (\<not> is_surrogate c \<and> utf8_encodable s)"
  by (simp add: utf8_encodable_def)

lemma utf8_encodable_append: "utf8_encodable (a @ b) = (utf8_encodable a \<and> utf8_encodable b)"
  by (simp add: utf8_encodable_def)

lemma utf8_encodable_small: "\<forall>c \<in> set s. c < 55296 \<Longrightarrow> utf8_encodable s"
  by (auto simp add: utf8_encodable_def list_ex_iff is_surrogate_def)

lemma utf8_encodable_asc: "utf8_encodable (asc s)"
proof (rule utf8_encodable_small)
  have "of_char c < (55296::nat)" for c
    using nat_of_char_less_256 [of c] by linarith
  then show "\<forall>c \<in> set (asc s). c < 55296" by (auto simp add: asc_def)
qed

lemma str_nat_small: "\<forall>c \<in> set (str_nat n). c < 58"
proof (induction n rule: str_nat.induct)
  case (1 n)
  show ?case
  proof (cases "n < 10")
    case True
    then show ?thesis by (subst str_nat.simps) simp
  next
    case False
    have "48 + n mod 10 < 58" by simp
    with False 1 show ?thesis by (subst str_nat.simps) auto
  qed
qed

lemma utf8_encodable_str_nat: "utf8_encodable (str_nat n)"
  using str_nat_small [of n] by (intro utf8_encodable_small) auto

lemma utf8_encodable_str_int: "utf8_encodable (str_int i)"
  by (simp add: str_int_def utf8_encodable_Cons utf8_encodable_str_nat is_surrogate_def)

lemma hex_digit_small: "hex_digit (n mod 16) < 103"
proof -
  have "n mod 16 < 16" by simp
  then show ?thesis unfolding hex_digit_def by (cases "n mod 16 < 10") simp_all
qed

lemma utf8_encodable_hex4: "utf8_encodable (hex4 c)"
proof (rule utf8_encodable_small)
  have "hex_digit (n mod 16) < 55296" for n
    using hex_digit_small [of n] by linarith
  then show "\<forall>x \<in> set (hex4 c). x < 55296" by (simp add: hex4_def)
qed

lemma utf8_encodable_encode_error: "utf8_encodable (str_of_exn (unicode_encode_error s))"
  by (simp add: unicode_encode_error_def Let_def utf8_encodable_append utf8_encodable_asc
        utf8_encodable_Cons utf8_encodable_Nil utf8_encodable_hex4 utf8_encodable_str_nat
        is_surrogate_def split: list.splits)

lemmas encodable_simps = utf8_encodable_append utf8_encodable_Cons utf8_encodable_Nil
  utf8_encodable_asc utf8_encodable_str_nat utf8_encodable_str_int is_surrogate_def

lemma msg_batch_start_encodable: "utf8_encodable (msg_batch_start i n)"
  by (simp add: msg_batch_start_def encodable_simps)

lemma msg_visiting_encodable: "utf8_encodable (msg_visiting u) = utf8_encodable u"
  by (simp add: msg_visiting_def encodable_simps)

lemma msg_manual_verify_encodable: "utf8_encodable (msg_manual_verify t)"
  by (simp add: msg_manual_verify_def encodable_simps)

lemma msg_incomplete_encodable: "utf8_encodable (msg_incomplete u) = utf8_encodable u"
  by (simp add: msg_incomplete_def encodable_simps)

lemma msg_region_not_found_encodable: "utf8_encodable (msg_region_not_found s) = utf8_encodable s"
  by (simp add: msg_region_not_found_def encodable_simps)

lemma msg_scrape_error_encodable:
  "utf8_encodable (msg_scrape_error u e) = (utf8_encodable u \<and> utf8_encodable (str_of_exn e))"
  by (simp add: msg_scrape_error_def encodable_simps)

lemma msg_selector_detected_encodable:
  "utf8_encodable (msg_selector_detected s) = utf8_encodable s"
  by (simp add: msg_selector_detected_def encodable_simps)

lemma msg_no_selector_detected_encodable: "utf8_encodable msg_no_selector_detected"
  by (simp add: msg_no_selector_detected_def encodable_simps)

lemma potential_selectors_encodable: "\<forall>s \<in> set potential_selectors. utf8_encodable s"
  by (simp add: potential_selectors_def utf8_encodable_asc)

lemma py_print_encodable:
  "utf8_encodable line \<Longrightarrow> py_print line st = (Inr (), st\<lparr>console := console st @ [line]\<rparr>)"
  by (simp add: py_print_def)

lemma py_print_InrD:
  "py_print line st = (Inr x, st') \<Longrightarrow> utf8_encodable line \<and> st' = st\<lparr>console := console st @ [line]\<rparr>"
  by (auto simp add: py_print_def split: if_splits)

section \<open>Properties of selector detection\<close>

lemma detect_loop_value:
  "\<forall>s \<in> set cands. utf8_encodable s \<Longrightarrow>
   fst (detect_loop d cands st) = Inr (first_qualifying d cands)"
proof (induction cands)
  case Nil
  show ?case
    by (simp add: first_qualifying_def io_bind_def py_print_def io_return_def
          msg_no_selector_detected_encodable)
next
  case (Cons s ss)
  then show ?case
    by (simp add: first_qualifying_def qualifies_def detect_try_def io_bind_def io_catch_def
          io_lift_def py_print_def io_return_def msg_selector_detected_encodable
        split: sum.splits list.splits)
qed

text \<open>
  Claim C5. Selector detection always returns normally, and its value is the first
  candidate of the priority list that qualifies (lookup returns normally, at least one
  element, first element's text longer than 500), candidates that raise or do not
  qualify being skipped; when no candidate qualifies the value is \<open>body\<close>.
\<close>

theorem detect_content_selector_first_qualifying:
  "fst (detect_content_selector d st) =
     Inr (case find (qualifies d) potential_selectors of Some s \<Rightarrow> s | None \<Rightarrow> asc ''body'')"
  using detect_loop_value [OF potential_selectors_encodable, of d st]
  by (simp add: detect_content_selector_def first_qualifying_def)

theorem detect_content_selector_first_qualifying_witness:
  "fst (detect_content_selector third_candidate_driver init_sys) = Inr (asc ''div.novelcontent'')"
  using detect_content_selector_first_qualifying [of third_candidate_driver init_sys]
  by (simp add: potential_selectors_def qualifies_def third_candidate_driver_def
                elem_of_def long_text_def asc_def)

lemma detect_loop_in_candidates:
  "fst (detect_loop d cands st) = Inr s \<Longrightarrow> s \<in> set cands \<or> s = asc ''body''"
  by (induction cands arbitrary: st)
     (auto simp add: detect_try_def io_bind_def io_catch_def io_lift_def py_print_def io_return_def
        split: sum.splits list.splits if_splits option.splits prod.splits)

lemma detected_nonempty:
  assumes "fst (detect_content_selector d st) = Inr s"
  shows "s \<noteq> []"
proof -
  from assms have "s \<in> set potential_selectors \<or> s = asc ''body''"
    unfolding detect_content_selector_def by (rule detect_loop_in_candidates)
  then show ?thesis
    by (auto simp add: potential_selectors_def asc_def)
qed

lemma detect_content_selector_returns:
  "\<exists>s st'. detect_content_selector d st = (Inr s, st')"
proof -
  have "fst (detect_content_selector d st) =
     Inr (case find (qualifies d) potential_selectors of Some s \<Rightarrow> s | None \<Rightarrow> asc ''body'')"
    using detect_loop_value [OF potential_selectors_encodable, of d st]
    by (simp add: detect_content_selector_def first_qualifying_def)
  then show ?thesis by (cases "detect_content_selector d st") auto
qed

section \<open>Properties of the single-page scraper\<close>

lemma chrome_env_of: "chrome (env_of f) n opts = f n"
  by (simp add: env_of_def)

lemma fs_open_env_of: "fs_open (env_of f) path a = Inr ()"
  by (simp add: env_of_def)

lemma io_bind_InrE:
  assumes "io_bind m f st = (Inr r, st')"
  obtains x st1 where "m st = (Inr x, st1)" and "f x st1 = (Inr r, st')"
  using assms by (auto simp add: io_bind_def split: sum.splits prod.splits)

lemma io_bind_InlE:
  assumes "io_bind m f st = (Inl e, st')"
  obtains "m st = (Inl e, st')" | x st1 where "m st = (Inr x, st1)" and "f x st1 = (Inl e, st')"
  using assms by (auto simp add: io_bind_def split: sum.splits prod.splits)

lemma scrape_text_acquisition_raises:
  "chrome E (launched st) (driver_options h) = Inl e \<Longrightarrow>
   scrape_text E u sel t h st = (Inl e, st\<lparr>launched := Suc (launched st)\<rparr>)"
  by (simp add: scrape_text_def setup_driver_def io_bind_def)

lemma scrape_text_body_returns:
  assumes "chrome E (launched st) (driver_options h) = Inr d"
    and "scrape_try E d u sel t h (st\<lparr>launched := Suc (launched st)\<rparr>) = (Inr r, st2)"
  shows "scrape_text E u sel t h st = (Inr r, st2\<lparr>released := Suc (released st2)\<rparr>)"
  using assms
  by (simp add: scrape_text_def setup_driver_def io_bind_def io_finally_def io_catch_def
        driver_quit_def)

lemma scrape_text_body_raises:
  assumes "chrome E (launched st) (driver_options h) = Inr d"
    and "scrape_try E d u sel t h (st\<lparr>launched := Suc (launched st)\<rparr>) = (Inl e, st2)"
  shows "scrape_text E u sel t h st =
     (if utf8_encodable (msg_scrape_error u e)
      then (Inr \<lparr>url = u, content = [], selector = None, error = Some (str_of_exn e)\<rparr>,
            st2\<lparr>console := console st2 @ [msg_scrape_error u e], released := Suc (released st2)\<rparr>)
      else (Inl (unicode_encode_error (msg_scrape_error u e)),
            st2\<lparr>released := Suc (released st2)\<rparr>))"
  using assms
  by (simp add: scrape_text_def setup_driver_def io_bind_def io_finally_def io_catch_def
        driver_quit_def scrape_except_def py_print_def io_return_def)

lemma scrape_try_InrD:
  assumes "scrape_try E d u sel t h st = (Inr r, st')"
  obtains s c where "r = \<lparr>url = u, content = c, selector = Some s, error = None\<rparr>"
    and "utf8_encodable u"
    and "\<exists>st0 st1. (case sel of None \<Rightarrow> detect_content_selector d
            | Some s \<Rightarrow> if s = [] then detect_content_selector d else io_return s) st0 = (Inr s, st1)"
proof -
  from assms obtain s c st0 st1 st2 st3 st4 x where
    vis: "py_print (msg_visiting u) st3 = (Inr x, st4)"
    and det: "(case sel of None \<Rightarrow> detect_content_selector d
            | Some s \<Rightarrow> if s = [] then detect_content_selector d else io_return s) st0 = (Inr s, st1)"
    and ret: "io_return \<lparr>url = u, content = c, selector = Some s, error = None\<rparr> st2 = (Inr r, st')"
    unfolding scrape_try_def
    apply (elim io_bind_InrE)
    apply blast
    done
  from vis have "utf8_encodable u" by (auto dest: py_print_InrD simp add: msg_visiting_encodable)
  moreover from ret have "r = \<lparr>url = u, content = c, selector = Some s, error = None\<rparr>"
    by (auto simp add: io_return_def)
  ultimately show ?thesis using det that by blast
qed

lemma scrape_text_InrE:
  assumes "scrape_text E u sel t h st = (Inr r, st')"
  obtains d st2 where "chrome E (launched st) (driver_options h) = Inr d"
      and "scrape_try E d u sel t h (st\<lparr>launched := Suc (launched st)\<rparr>) = (Inr r, st2)"
    | d e st2 where "chrome E (launched st) (driver_options h) = Inr d"
      and "scrape_try E d u sel t h (st\<lparr>launched := Suc (launched st)\<rparr>) = (Inl e, st2)"
      and "utf8_encodable (msg_scrape_error u e)"
      and "r = \<lparr>url = u, content = [], selector = None, error = Some (str_of_exn e)\<rparr>"
proof (cases "chrome E (launched st) (driver_options h)")
  case (Inl e)
  with assms show ?thesis by (simp add: scrape_text_acquisition_raises)
next
  case (Inr d)
  show ?thesis
  proof (cases "scrape_try E d u sel t h (st\<lparr>launched := Suc (launched st)\<rparr>)")
    case (Pair res st2)
    show ?thesis
    proof (cases res)
      case (Inl e)
      with Pair Inr assms that(2) show ?thesis
        by (auto simp add: scrape_text_body_raises split: if_splits)
    next
      case r': (Inr r')
      with Pair Inr assms that(1) show ?thesis
        by (auto simp add: scrape_text_body_returns)
    qed
  qed
qed

lemma scrape_text_url:
  assumes "scrape_text E u sel t h st = (Inr r, st')"
  shows "url r = u"
  using assms by (rule scrape_text_InrE) (auto elim: scrape_try_InrD)

lemma scrape_text_printable:
  assumes "scrape_text E u sel t h st = (Inr r, st')"
  shows "utf8_encodable (status_line r)"
  using assms
proof (rule scrape_text_InrE)
  fix d st2 assume "scrape_try E d u sel t h (st\<lparr>launched := Suc (launched st)\<rparr>) = (Inr r, st2)"
  then show ?thesis
    by (rule scrape_try_InrD)
       (simp add: status_line_def status_of_def status_success_def status_failure_def
          unknown_reason_def encodable_simps)
next
  fix d e st2
  assume "utf8_encodable (msg_scrape_error u e)"
    and "r = \<lparr>url = u, content = [], selector = None, error = Some (str_of_exn e)\<rparr>"
  then show ?thesis
    by (simp add: status_line_def status_of_def status_failure_def msg_scrape_error_encodable
          encodable_simps)
qed

lemma scrape_text_selector:
  assumes "scrape_text E u sel t h st = (Inr r, st')" and "not_selector sel"
    and "selector r = Some s"
  shows "s \<noteq> []"
  using assms(1)
proof (rule scrape_text_InrE)
  fix d st2 assume "scrape_try E d u sel t h (st\<lparr>launched := Suc (launched st)\<rparr>) = (Inr r, st2)"
  then show ?thesis
  proof (rule scrape_try_InrD)
    fix s' c
    assume r: "r = \<lparr>url = u, content = c, selector = Some s', error = None\<rparr>"
      and "\<exists>st0 st1. (case sel of None \<Rightarrow> detect_content_selector d
            | Some s \<Rightarrow> if s = [] then detect_content_selector d else io_return s) st0 = (Inr s', st1)"
    then obtain st0 st1 where "detect_content_selector d st0 = (Inr s', st1)"
      using assms(2) by (auto simp add: not_selector_def)
    then have "fst (detect_content_selector d st0) = Inr s'" by simp
    then have "s' \<noteq> []" by (rule detected_nonempty)
    with r assms(3) show ?thesis by simp
  qed
next
  fix d e st2
  assume "r = \<lparr>url = u, content = [], selector = None, error = Some (str_of_exn e)\<rparr>"
  with assms(3) show ?thesis by simp
qed

lemma scrape_try_no_detection:
  "s \<noteq> [] \<Longrightarrow> scrape_try E (d\<lparr>find_elements := f\<rparr>) u (Some s) t h = scrape_try E d u (Some s) t h"
  by (simp add: scrape_try_def)

lemma scrape_try_navigation_fails:
  "driver_get d u = Inl e \<Longrightarrow> scrape_try E d u sel t h st = (Inl e, st)"
  by (simp add: scrape_try_def io_bind_def io_lift_def)

lemma py_print_InlD:
  "py_print line st = (Inl e, st') \<Longrightarrow> e = unicode_encode_error line"
  by (auto simp add: py_print_def split: if_splits)

lemma py_sleep_InlD:
  "py_sleep t st = (Inl e, st') \<Longrightarrow> utf8_encodable (str_of_exn e)"
  by (auto simp add: py_sleep_def utf8_encodable_asc split: if_splits)

lemma clean_text_InlD:
  "clean_text E html = Inl e \<Longrightarrow> html_parser E html = Inl e"
  by (auto simp add: clean_text_def Let_def split: sum.splits)

text \<open>
  What leaves the body of the \<open>try\<close> comes from the navigation, from a print, from a sleep,
  from the lookup of the element, from the extraction of its markup or from the parser.
  What the bounded wait raises, and what a lookup inside detection raises, is handled
  where it is raised (lines 84 and 114) and never leaves the body.
\<close>

lemma scrape_try_raises_printable:
  assumes "scrape_try E d u sel t h st = (Inl e, st')"
    and "driver_errors_printable d" and "parser_errors_printable E"
  shows "utf8_encodable (str_of_exn e)"
  using assms(1) unfolding scrape_try_def
proof (elim io_bind_InlE, goal_cases)
  case 1
  with assms(2) show ?case by (auto simp add: io_lift_def driver_errors_printable_def)
next
  case (2 x st1)
  then show ?case by (auto dest!: py_print_InlD simp add: utf8_encodable_encode_error)
next
  case (3 x st1 xa st1a)
  then show ?case
    by (auto simp add: io_when_def io_return_def io_bind_def utf8_encodable_encode_error
          split: if_splits sum.splits prod.splits dest!: py_print_InlD py_sleep_InlD)
next
  case (4 x st1 xa st1a xb st1b)
  then show ?case by (auto dest!: py_sleep_InlD)
next
  case (5 x st1 xa st1a xb st1b xc st1c)
  then show ?case
    using detect_content_selector_returns [of d st1c]
    by (auto simp add: io_return_def split: option.splits if_splits)
next
  case (6 x st1 xa st1a xb st1b xc st1c xd st1d)
  then show ?case
    by (auto simp add: io_catch_def io_lift_def utf8_encodable_encode_error
          split: sum.splits dest!: py_print_InlD)
next
  case (7 x st1 xa st1a xb st1b xc st1c xd st1d xe st1e)
  with assms(2) show ?case by (auto simp add: io_lift_def driver_errors_printable_def)
next
  case (8 x st1 xa st1a xb st1b xc st1c xd st1d xe st1e xf st1f)
  with assms(2) show ?case by (auto simp add: io_lift_def driver_errors_printable_def)
next
  case (9 x st1 xa st1a xb st1b xc st1c xd st1d xe st1e xf st1f xg st1g)
  with assms(3) show ?case
    by (auto simp add: io_lift_def parser_errors_printable_def dest!: clean_text_InlD)
next
  case (10 x st1 xa st1a xb st1b xc st1c xd st1d xe st1e xf st1f xg st1g xh st1h)
  then show ?case
    by (auto simp add: io_when_def io_return_def utf8_encodable_encode_error
          split: if_splits dest!: py_print_InlD)
next
  case (11 x st1 xa st1a xb st1b xc st1c xd st1d xe st1e xf st1f xg st1g xh st1h xi st1i)
  then show ?case by (simp add: io_return_def)
qed

lemma scrape_text_returns:
  assumes "chrome E (launched st) (driver_options h) = Inr d"
    and "utf8_encodable u" and "driver_errors_printable d" and "parser_errors_printable E"
  shows "\<exists>r st'. scrape_text E u sel t h st = (Inr r, st')"
proof (cases "scrape_try E d u sel t h (st\<lparr>launched := Suc (launched st)\<rparr>)")
  case (Pair res st2)
  show ?thesis
  proof (cases res)
    case (Inl e)
    with Pair have run: "scrape_try E d u sel t h (st\<lparr>launched := Suc (launched st)\<rparr>) = (Inl e, st2)"
      by simp
    from scrape_try_raises_printable [OF run assms(3,4)] assms(2)
    have "utf8_encodable (msg_scrape_error u e)" by (simp add: msg_scrape_error_encodable)
    then show ?thesis by (simp add: scrape_text_body_raises [OF assms(1) run])
  next
    case (Inr r)
    with Pair assms(1) show ?thesis by (simp add: scrape_text_body_returns)
  qed
qed

text \<open>
  Claim C2 says that no exception of the single-page scrape, session acquisition included,
  leaves \<open>scrape_text\<close>. On a machine where Chrome does not start, \<open>scrape_text\<close> raises what
  \<open>webdriver.Chrome\<close> raised, and so does \<open>batch_scrape\<close>.
\<close>

theorem scrape_text_escapes_counterexample:
  "fst (scrape_text no_chrome_env (asc ''u1'') None 30 True init_sys) =
     Inl (Exception (asc ''chromedriver not found''))
   \<and> fst (batch_scrape no_chrome_env [asc ''u1''] (asc ''out.txt'') None 30 True False init_sys) =
     Inl (Exception (asc ''chromedriver not found''))"
  by (simp add: batch_scrape_def scrape_text_acquisition_raises no_chrome_env_def chrome_env_of
        io_bind_def init_sys_def py_print_encodable msg_batch_start_encodable)

text \<open>
  Claim C2, amended. \<open>scrape_text\<close> raises what the acquisition of the browser session
  raises. Once the session is acquired, and when the URL and the messages of the
  exceptions that the session and the parser raise can be printed, every exception is
  caught and the call returns a result.
\<close>

theorem scrape_text_acquisition_or_result:
  "(chrome E (launched st) (driver_options h) = Inl e \<longrightarrow>
      fst (scrape_text E u sel t h st) = Inl e)
   \<and> (chrome E (launched st) (driver_options h) = Inr d \<and> utf8_encodable u \<and>
      driver_errors_printable d \<and> parser_errors_printable E \<longrightarrow>
      (\<exists>r. fst (scrape_text E u sel t h st) = Inr r))"
proof (intro conjI impI)
  assume "chrome E (launched st) (driver_options h) = Inl e"
  then show "fst (scrape_text E u sel t h st) = Inl e"
    by (simp add: scrape_text_acquisition_raises)
next
  assume "chrome E (launched st) (driver_options h) = Inr d \<and> utf8_encodable u \<and>
      driver_errors_printable d \<and> parser_errors_printable E"
  then obtain r st' where "scrape_text E u sel t h st = (Inr r, st')"
    using scrape_text_returns [of E st h d u sel t] by blast
  then show "\<exists>r. fst (scrape_text E u sel t h st) = Inr r" by simp
qed

lemma page_driver_errors_printable: "driver_errors_printable (page_driver s html)"
  by (simp add: driver_errors_printable_def page_driver_def elem_of_def utf8_encodable_asc)

lemma offline_driver_errors_printable: "driver_errors_printable offline_driver"
  by (simp add: driver_errors_printable_def offline_driver_def utf8_encodable_asc)

lemma env_of_parser_errors_printable: "parser_errors_printable (env_of f)"
  by (simp add: parser_errors_printable_def env_of_def text_parser_def)

theorem scrape_text_acquisition_or_result_witness:
  "fst (scrape_text no_chrome_env (asc ''u1'') None 30 True init_sys) =
     Inl (Exception (asc ''chromedriver not found''))
   \<and> (\<exists>r. fst (scrape_text novel_env (asc ''u1'') None 30 True init_sys) = Inr r)"
proof -
  have a: "chrome no_chrome_env (launched init_sys) (driver_options True) =
             Inl (Exception (asc ''chromedriver not found''))"
    by (simp add: no_chrome_env_def chrome_env_of)
  have b: "chrome novel_env (launched init_sys) (driver_options True) =
             Inr (page_driver (asc ''div.novelcontent'') (asc ''Chapter one''))
           \<and> utf8_encodable (asc ''u1'')
           \<and> driver_errors_printable (page_driver (asc ''div.novelcontent'') (asc ''Chapter one''))
           \<and> parser_errors_printable novel_env"
    by (simp add: novel_env_def chrome_env_of utf8_encodable_asc page_driver_errors_printable
          env_of_parser_errors_printable)
  from scrape_text_acquisition_or_result [where E = no_chrome_env and st = init_sys and h = True
      and e = "Exception (asc ''chromedriver not found'')" and u = "asc ''u1''" and sel = None
      and t = 30] a
    scrape_text_acquisition_or_result [where E = novel_env and st = init_sys and h = True
      and u = "asc ''u1''" and sel = None and t = 30
      and d = "page_driver (asc ''div.novelcontent'') (asc ''Chapter one'')"] b
  show ?thesis by blast
qed

lemma offline_try:
  "scrape_try E offline_driver u sel t h st = (Inl (Exception (asc ''net::ERR_NAME_NOT_RESOLVED'')), st)"
  by (simp add: scrape_try_navigation_fails offline_driver_def)

text \<open>
  Claim C4 says that, for every URL, an exception raised during the steps of the \<open>try\<close>
  yields a result with the error set. The handler prints the URL and the message before
  it returns (line 130). For a URL that holds a surrogate, with the session acquired and
  the navigation failing, this print raises \<open>UnicodeEncodeError\<close>, which leaves
  \<open>scrape_text\<close>: no result is returned.
\<close>

theorem scrape_text_handler_print_counterexample:
  "chrome offline_env (launched init_sys) (driver_options True) = Inr offline_driver
   \<and> fst (scrape_try offline_env offline_driver [55296] None 30 True
            (init_sys\<lparr>launched := Suc (launched init_sys)\<rparr>)) =
       Inl (Exception (asc ''net::ERR_NAME_NOT_RESOLVED''))
   \<and> fst (scrape_text offline_env [55296] None 30 True init_sys) =
       Inl (unicode_encode_error
             (msg_scrape_error [55296] (Exception (asc ''net::ERR_NAME_NOT_RESOLVED''))))
   \<and> str_of_exn (unicode_encode_error
             (msg_scrape_error [55296] (Exception (asc ''net::ERR_NAME_NOT_RESOLVED'')))) =
       [39] @ asc ''utf-8'' @ [39] @ asc '' codec can'' @ [39] @ asc ''t encode character '' @
       [39, 92] @ asc ''ud800'' @ [39] @ asc '' in position 3: surrogates not allowed''"
proof -
  have c: "chrome offline_env (launched init_sys) (driver_options True) = Inr offline_driver"
    by (simp add: offline_env_def chrome_env_of)
  have n: "\<not> utf8_encodable (msg_scrape_error [55296] (Exception (asc ''net::ERR_NAME_NOT_RESOLVED'')))"
    by (simp add: msg_scrape_error_encodable encodable_simps)
  have m: "str_of_exn (unicode_encode_error
             (msg_scrape_error [55296] (Exception (asc ''net::ERR_NAME_NOT_RESOLVED'')))) =
       [39] @ asc ''utf-8'' @ [39] @ asc '' codec can'' @ [39] @ asc ''t encode character '' @
       [39, 92] @ asc ''ud800'' @ [39] @ asc '' in position 3: surrogates not allowed''"
    by (simp add: unicode_encode_error_def msg_scrape_error_def is_surrogate_def asc_def
          hex4_def hex_digit_def str_nat.simps)
  show ?thesis
    using c n m by (simp add: scrape_text_body_raises [OF c offline_try] offline_try)
qed

text \<open>
  Claim C4, amended. When the session is acquired and an exception \<open>e\<close> leaves the body of
  the \<open>try\<close> (navigation, a print, a sleep, the lookup of the element, the extraction of its
  markup, the cleaning), it is caught. When the error line, which holds the URL and
  \<open>str(e)\<close>, can be encoded for the console, \<open>scrape_text\<close> returns normally: the result has
  the URL, the empty content, no selector and the error \<open>str(e)\<close>; the error line is printed
  and the session is released. Otherwise the \<open>UnicodeEncodeError\<close> of the handler's print
  leaves \<open>scrape_text\<close>, after the session is released.
\<close>

theorem scrape_text_catches_printable:
  assumes "chrome E (launched st) (driver_options h) = Inr d"
    and "scrape_try E d u sel t h (st\<lparr>launched := Suc (launched st)\<rparr>) = (Inl e, st2)"
  shows "scrape_text E u sel t h st =
     (if utf8_encodable (msg_scrape_error u e)
      then (Inr \<lparr>url = u, content = [], selector = None, error = Some (str_of_exn e)\<rparr>,
            st2\<lparr>console := console st2 @ [msg_scrape_error u e], released := Suc (released st2)\<rparr>)
      else (Inl (unicode_encode_error (msg_scrape_error u e)),
            st2\<lparr>released := Suc (released st2)\<rparr>))"
  using assms by (rule scrape_text_body_raises)

theorem scrape_text_catches_printable_witness:
  "scrape_text second_offline_env (asc ''u2'') None 30 True (init_sys\<lparr>launched := 1\<rparr>) =
     (Inr \<lparr>url = asc ''u2'', content = [], selector = None,
           error = Some (asc ''net::ERR_NAME_NOT_RESOLVED'')\<rparr>,
      init_sys\<lparr>launched := 2, released := 1,
        console := [msg_scrape_error (asc ''u2'') (Exception (asc ''net::ERR_NAME_NOT_RESOLVED''))]\<rparr>)"
proof -
  have c: "chrome second_offline_env (launched (init_sys\<lparr>launched := 1\<rparr>)) (driver_options True) =
             Inr offline_driver"
    by (simp add: second_offline_env_def chrome_env_of)
  have p: "utf8_encodable (msg_scrape_error (asc ''u2'') (Exception (asc ''net::ERR_NAME_NOT_RESOLVED'')))"
    by (simp add: msg_scrape_error_encodable utf8_encodable_asc)
  from scrape_text_catches_printable [OF c offline_try, where sel = None and t = 30] p
  show ?thesis by (simp add: init_sys_def)
qed

section \<open>Properties of the example collaborators\<close>

lemmas io_defs = io_bind_def io_lift_def io_when_def io_finally_def io_catch_def io_return_def
  py_print_def py_sleep_def driver_quit_def setup_driver_def

lemmas msg_encodable = msg_batch_start_encodable msg_visiting_encodable msg_manual_verify_encodable
  msg_incomplete_encodable msg_region_not_found_encodable msg_scrape_error_encodable
  msg_selector_detected_encodable msg_no_selector_detected_encodable

lemma clean_chapter: "clean_text (env_of f) (asc ''Chapter one'') = Inr (asc ''Chapter one'')"
  by (simp add: clean_defs)

lemma clean_ad: "clean_text (env_of f) (asc ''www.example.com'') = Inr []"
  by (simp add: clean_defs)

lemma run_second_offline:
  "fst (batch_loop second_offline_env 3 30 True 1 [asc ''u1'', asc ''u2'', asc ''u3'']
         (Some (asc ''div#content'')) [] init_sys) =
   Inr [\<lparr>url = asc ''u1'', content = asc ''Chapter one'', selector = Some (asc ''div#content''), error = None\<rparr>,
        \<lparr>url = asc ''u2'', content = [], selector = None, error = Some (asc ''net::ERR_NAME_NOT_RESOLVED'')\<rparr>,
        \<lparr>url = asc ''u3'', content = asc ''Chapter one'', selector = Some (asc ''div#content''), error = None\<rparr>]"
  by (simp add: scrape_text_def scrape_try_def scrape_except_def second_offline_env_def io_defs
        init_sys_def page_driver_def offline_driver_def elem_of_def chrome_env_of asc_def
        msg_encodable encodable_simps
        clean_chapter [unfolded asc_def, simplified])

lemma scrape_novel_first:
  "fst (scrape_text novel_env (asc ''u1'') None 30 True
          (init_sys\<lparr>console := console init_sys @ [msg_batch_start 1 3]\<rparr>)) =
   Inr \<lparr>url = asc ''u1'', content = asc ''Chapter one'',
        selector = Some (asc ''div.novelcontent''), error = None\<rparr>"
  by (simp add: scrape_text_def scrape_try_def scrape_except_def novel_env_def io_defs
        init_sys_def page_driver_def elem_of_def chrome_env_of asc_def not_selector_def
        detect_content_selector_def detect_try_def potential_selectors_def long_text_def
        msg_encodable encodable_simps
        clean_chapter [unfolded asc_def, simplified])

lemma run_ad_page:
  "fst (batch_loop ad_page_env 1 30 True 1 [asc ''u1''] (Some (asc ''div#content'')) [] init_sys) =
     Inr [\<lparr>url = asc ''u1'', content = [], selector = Some (asc ''div#content''), error = None\<rparr>]"
  by (simp add: scrape_text_def scrape_try_def scrape_except_def ad_page_env_def io_defs
        init_sys_def page_driver_def elem_of_def chrome_env_of asc_def
        msg_encodable encodable_simps
        clean_ad [unfolded asc_def, simplified])

section \<open>Properties of the batch orchestrator\<close>

lemma batch_loop_Cons:
  "batch_loop E n vt hl i (u # us) sel acc st =
     io_bind (scrape_text E u sel vt hl) (\<lambda>result.
       batch_loop E n vt hl (Suc i) us
         (if i = 1 \<and> not_selector sel \<and> selector result \<noteq> None then selector result else sel)
         (acc @ [result]))
       (st\<lparr>console := console st @ [msg_batch_start i n]\<rparr>)"
  by (simp add: io_bind_def py_print_encodable msg_batch_start_encodable)

lemma batch_loop_results:
  "batch_loop E n vt hl i urls sel acc st = (Inr rs, st') \<Longrightarrow>
   map url rs = map url acc @ urls \<and>
   ((\<forall>r \<in> set acc. utf8_encodable (status_line r)) \<longrightarrow>
    (\<forall>r \<in> set rs. utf8_encodable (status_line r)))"
proof (induction urls arbitrary: i sel acc st)
  case Nil
  then show ?case by (auto simp add: io_return_def)
next
  case (Cons u us)
  from Cons.prems obtain r st1 where
    r: "scrape_text E u sel vt hl (st\<lparr>console := console st @ [msg_batch_start i n]\<rparr>) = (Inr r, st1)"
    and rest: "batch_loop E n vt hl (Suc i) us
         (if i = 1 \<and> not_selector sel \<and> selector r \<noteq> None then selector r else sel)
         (acc @ [r]) st1 = (Inr rs, st')"
    unfolding batch_loop_Cons by (elim io_bind_InrE)
  from Cons.IH [OF rest] scrape_text_url [OF r] scrape_text_printable [OF r]
  show ?case by auto
qed

lemma batch_loop_urls:
  "batch_loop E n vt hl i urls sel [] st = (Inr rs, st') \<Longrightarrow> map url rs = urls"
  by (drule batch_loop_results) simp

lemma batch_loop_printable:
  "batch_loop E n vt hl i urls sel [] st = (Inr rs, st') \<Longrightarrow>
   \<forall>r \<in> set rs. utf8_encodable (status_line r)"
  by (drule batch_loop_results) simp

lemma batch_loop_returns:
  assumes "\<forall>k. \<exists>d. chrome E k (driver_options hl) = Inr d \<and> driver_errors_printable d"
    and "parser_errors_printable E"
  shows "\<forall>u \<in> set urls. utf8_encodable u \<Longrightarrow>
         \<exists>rs st'. batch_loop E n vt hl i urls sel acc st = (Inr rs, st')"
proof (induction urls arbitrary: i sel acc st)
  case Nil
  then show ?case by (simp add: io_return_def)
next
  case (Cons u us)
  let ?st0 = "st\<lparr>console := console st @ [msg_batch_start i n]\<rparr>"
  from assms(1) obtain d where d: "chrome E (launched ?st0) (driver_options hl) = Inr d"
    and dp: "driver_errors_printable d" by blast
  from Cons.prems have "utf8_encodable u" by simp
  from scrape_text_returns [OF d this dp assms(2)]
  obtain r st1 where r: "scrape_text E u sel vt hl ?st0 = (Inr r, st1)" by blast
  from Cons.prems have "\<forall>u \<in> set us. utf8_encodable u" by simp
  from Cons.IH [OF this] r show ?case
    unfolding batch_loop_Cons by (simp add: io_bind_def)
qed

lemma batch_loop_fixed_selector:
  "2 \<le> i \<Longrightarrow> batch_loop E n vt hl i us (Some s) acc = scrape_each E n vt hl i us s acc"
  by (induction us arbitrary: i acc) simp_all

lemma print_statuses_run:
  "\<forall>r \<in> set rs. utf8_encodable (status_line r) \<Longrightarrow>
   print_statuses rs st = (Inr (), st\<lparr>console := console st @ map status_line rs\<rparr>)"
  by (induction rs arbitrary: st) (simp_all add: io_return_def io_bind_def py_print_def)

lemma msg_batch_done_encodable: "utf8_encodable msg_batch_done"
  by (simp add: msg_batch_done_def encodable_simps)

lemma msg_saved_encodable: "utf8_encodable (msg_saved k out) = utf8_encodable out"
  by (simp add: msg_saved_def encodable_simps)

lemma batch_scrape_effects:
  assumes "batch_loop E (length urls) vt hl 1 urls sel [] st = (Inr rs, st1)"
    and "fs_open E out ap = Inr ()"
    and "utf8_encodable (combined_text rs)" and "utf8_encodable out"
  shows "batch_scrape E urls out sel vt hl ap st =
     (Inr (),
      st1\<lparr>files := (files st1)(out \<mapsto>
               (if ap then (case files st1 out of None \<Rightarrow> [] | Some old \<Rightarrow> old) else [])
               @ combined_text rs),
          console := console st1 @
               [msg_batch_done, msg_saved (length (filter (\<lambda>r. content r \<noteq> []) rs)) out]
               @ map status_line rs\<rparr>)"
  using assms batch_loop_printable [OF assms(1)]
  by (simp add: batch_scrape_def write_file_def io_bind_def io_lift_def py_print_encodable
        msg_batch_done_encodable msg_saved_encodable print_statuses_run)

text \<open>
  Claim C1. When the caller supplies no selector and the scrape of the first URL returns
  a result that holds a selector \<open>s\<close>, the rest of the batch is the scrape of every
  remaining URL with exactly \<open>s\<close> as its selector argument; \<open>s\<close> is not empty, so these
  calls do not run detection: they do not depend on what \<open>find_elements\<close>, the only
  question that detection asks, would answer.
\<close>

theorem batch_selector_reuse:
  assumes "not_selector sel"
    and "fst (scrape_text E u sel vt hl (st\<lparr>console := console st @ [msg_batch_start 1 n]\<rparr>)) = Inr r"
    and "selector r = Some s"
  shows "batch_loop E n vt hl 1 (u # us) sel [] st =
           scrape_each E n vt hl 2 us s [r]
             (snd (scrape_text E u sel vt hl (st\<lparr>console := console st @ [msg_batch_start 1 n]\<rparr>)))
         \<and> s \<noteq> []
         \<and> (\<forall>d f u'. scrape_try E (d\<lparr>find_elements := f\<rparr>) u' (Some s) vt hl =
                      scrape_try E d u' (Some s) vt hl)"
proof -
  let ?st0 = "st\<lparr>console := console st @ [msg_batch_start 1 n]\<rparr>"
  obtain st1 where run: "scrape_text E u sel vt hl ?st0 = (Inr r, st1)"
    using assms(2) by (cases "scrape_text E u sel vt hl ?st0") simp
  have ne: "s \<noteq> []" using run assms(1,3) by (rule scrape_text_selector)
  have "batch_loop E n vt hl 1 (u # us) sel [] st = batch_loop E n vt hl 2 us (Some s) [r] st1"
    unfolding batch_loop_Cons using assms(1,3) run by (simp add: io_bind_def numeral_2_eq_2)
  also have "\<dots> = scrape_each E n vt hl 2 us s [r] st1"
    by (simp add: batch_loop_fixed_selector)
  finally show ?thesis using ne run by (simp add: scrape_try_no_detection)
qed

theorem batch_selector_reuse_witness:
  "not_selector None \<and>
   batch_loop novel_env 3 30 True 1 [asc ''u1'', asc ''u2'', asc ''u3''] None [] init_sys =
     scrape_each novel_env 3 30 True 2 [asc ''u2'', asc ''u3''] (asc ''div.novelcontent'')
       [\<lparr>url = asc ''u1'', content = asc ''Chapter one'',
         selector = Some (asc ''div.novelcontent''), error = None\<rparr>]
       (snd (scrape_text novel_env (asc ''u1'') None 30 True
          (init_sys\<lparr>console := console init_sys @ [msg_batch_start 1 3]\<rparr>)))"
proof -
  have n: "not_selector None" by (simp add: not_selector_def)
  from batch_selector_reuse [OF n scrape_novel_first, of "asc ''div.novelcontent''" "[asc ''u2'', asc ''u3'']"] n
  show ?thesis by simp
qed

text \<open>
  Claim C6. Whenever the loop of the batch completes, the URLs of the collected results
  are the input URLs, in the input order, one result per URL, whichever scrapes failed.
  And it completes whenever every browser session can be acquired and the URLs, and the
  messages of the exceptions that the sessions and the parser raise, can be printed.
\<close>

theorem batch_results_in_input_order:
  "(\<forall>rs st'. batch_loop E (length urls) vt hl 1 urls sel [] st = (Inr rs, st') \<longrightarrow> map url rs = urls)
   \<and> ((\<forall>k. \<exists>d. chrome E k (driver_options hl) = Inr d \<and> driver_errors_printable d) \<and>
       parser_errors_printable E \<and> (\<forall>u \<in> set urls. utf8_encodable u) \<longrightarrow>
        (\<exists>rs st'. batch_loop E (length urls) vt hl 1 urls sel [] st = (Inr rs, st')))"
  using batch_loop_urls [of E "length urls" vt hl 1 urls sel st]
    batch_loop_returns [of E hl urls "length urls" vt 1 sel "[]" st]
  by blast

theorem batch_results_in_input_order_witness:
  "\<exists>rs st'. batch_loop second_offline_env (length [asc ''u1'', asc ''u2'', asc ''u3'']) 30 True 1
       [asc ''u1'', asc ''u2'', asc ''u3''] (Some (asc ''div#content'')) [] init_sys = (Inr rs, st')
     \<and> map url rs = [asc ''u1'', asc ''u2'', asc ''u3'']"
proof -
  have "\<forall>k. \<exists>d. chrome second_offline_env k (driver_options True) = Inr d \<and> driver_errors_printable d"
    by (simp add: second_offline_env_def chrome_env_of page_driver_errors_printable
          offline_driver_errors_printable)
  moreover have "parser_errors_printable second_offline_env"
    by (simp add: second_offline_env_def env_of_parser_errors_printable)
  moreover have "\<forall>u \<in> set [asc ''u1'', asc ''u2'', asc ''u3'']. utf8_encodable u"
    by (simp add: utf8_encodable_asc)
  ultimately show ?thesis
    using batch_results_in_input_order [of second_offline_env "[asc ''u1'', asc ''u2'', asc ''u3'']" 30 True
      "Some (asc ''div#content'')" init_sys]
    by blast
qed

text \<open>
  Claim C3 says that consecutive sections of the artifact are separated by the divider
  line. Evaluated on two successful results, \<open>combined_text\<close> puts the divider once, before
  the first label and on the same line, and only a blank line between the two sections;
  with no result at all the divider is still written.
\<close>

theorem combined_text_divider_only_leads:
  "combined_text
     [\<lparr>url = asc ''u1'', content = asc ''A'', selector = None, error = None\<rparr>,
      \<lparr>url = asc ''u2'', content = asc ''B'', selector = None, error = None\<rparr>] =
   [10, 10] @ replicate 50 61 @
   [26469, 28304, 58, 32] @ asc ''u1'' @ [10, 10] @ asc ''A'' @
   [10, 10] @
   [26469, 28304, 58, 32] @ asc ''u2'' @ [10, 10] @ asc ''B''
   \<and> combined_text [] = [10, 10] @ replicate 50 61"
  by (simp add: combined_text_def labelled_section_def asc_def)

lemma status_line_url_encodable: "utf8_encodable (status_line r) \<Longrightarrow> utf8_encodable (url r)"
  by (simp add: status_line_def utf8_encodable_append utf8_encodable_Cons)

lemma utf8_encodable_replicate: "\<not> is_surrogate c \<Longrightarrow> utf8_encodable (replicate k c)"
  by (induction k) (simp_all add: utf8_encodable_Nil utf8_encodable_Cons)

text \<open>
  Claim C7. For a batch of three URLs whose results are collected and of which exactly
  the second has empty content, when the output file can be opened and the two contents
  and the output path can be encoded, \<open>batch_scrape\<close> returns normally; the text written to
  the output file is the leading divider followed by the labelled sections of the first
  and third URLs, in that order; and the summary printed after the loop is the completion
  line, the line that counts 2 saved pages, and one status line per URL: success, failure
  with the recorded reason, success.
\<close>

theorem batch_three_second_fails:
  assumes "fst (batch_loop E (length [u1, u2, u3]) vt hl 1 [u1, u2, u3] sel [] st) = Inr [r1, r2, r3]"
    and "content r1 \<noteq> []" and "content r2 = []" and "content r3 \<noteq> []"
    and "fs_open E out ap = Inr ()"
    and "utf8_encodable (content r1)" and "utf8_encodable (content r3)" and "utf8_encodable out"
  shows "fst (batch_scrape E [u1, u2, u3] out sel vt hl ap st) = Inr ()
    \<and> files (snd (batch_scrape E [u1, u2, u3] out sel vt hl ap st)) out =
        Some ((if ap then (case files (snd (batch_loop E (length [u1, u2, u3]) vt hl 1 [u1, u2, u3] sel [] st)) out of
                             None \<Rightarrow> [] | Some old \<Rightarrow> old) else []) @
              [10, 10] @ replicate 50 61 @
              [26469, 28304, 58, 32] @ u1 @ [10, 10] @ content r1 @
              [10, 10] @
              [26469, 28304, 58, 32] @ u3 @ [10, 10] @ content r3)
    \<and> console (snd (batch_scrape E [u1, u2, u3] out sel vt hl ap st)) =
        console (snd (batch_loop E (length [u1, u2, u3]) vt hl 1 [u1, u2, u3] sel [] st)) @
        [msg_batch_done,
         msg_saved 2 out,
         [45, 32] @ u1 @ [58, 32] @ status_success,
         [45, 32] @ u2 @ [58, 32] @
           status_failure (case error r2 of Some e \<Rightarrow> e | None \<Rightarrow> unknown_reason),
         [45, 32] @ u3 @ [58, 32] @ status_success]"
proof -
  obtain st1 where run: "batch_loop E (length [u1, u2, u3]) vt hl 1 [u1, u2, u3] sel [] st = (Inr [r1, r2, r3], st1)"
    using assms(1) by (cases "batch_loop E (length [u1, u2, u3]) vt hl 1 [u1, u2, u3] sel [] st") simp
  from batch_loop_urls [OF run] have urls: "url r1 = u1" "url r2 = u2" "url r3 = u3"
    by simp_all
  from batch_loop_printable [OF run] have "utf8_encodable (url r1)" "utf8_encodable (url r3)"
    by (simp_all add: status_line_url_encodable)
  with assms(2-4,6,7) have enc: "utf8_encodable (combined_text [r1, r2, r3])"
    by (simp add: combined_text_def labelled_section_def utf8_encodable_append
          utf8_encodable_Cons utf8_encodable_Nil utf8_encodable_replicate is_surrogate_def)
  show ?thesis
    unfolding batch_scrape_effects [OF run assms(5) enc assms(8)] run
    using assms(2-4) urls
    by (simp add: combined_text_def labelled_section_def status_line_def status_of_def
          numeral_2_eq_2)
qed

theorem batch_three_second_fails_witness:
  "fst (batch_scrape second_offline_env [asc ''u1'', asc ''u2'', asc ''u3''] (asc ''out.txt'')
          (Some (asc ''div#content'')) 30 True False init_sys) = Inr ()
   \<and> files (snd (batch_scrape second_offline_env [asc ''u1'', asc ''u2'', asc ''u3''] (asc ''out.txt'')
          (Some (asc ''div#content'')) 30 True False init_sys)) (asc ''out.txt'') =
        Some ([10, 10] @ replicate 50 61 @
              [26469, 28304, 58, 32] @ asc ''u1'' @ [10, 10] @ asc ''Chapter one'' @
              [10, 10] @
              [26469, 28304, 58, 32] @ asc ''u3'' @ [10, 10] @ asc ''Chapter one'')"
proof -
  let ?r1 = "\<lparr>url = asc ''u1'', content = asc ''Chapter one'',
              selector = Some (asc ''div#content''), error = None\<rparr>"
  let ?r2 = "\<lparr>url = asc ''u2'', content = [], selector = None,
              error = Some (asc ''net::ERR_NAME_NOT_RESOLVED'')\<rparr>"
  let ?r3 = "\<lparr>url = asc ''u3'', content = asc ''Chapter one'',
              selector = Some (asc ''div#content''), error = None\<rparr>"
  have len: "length [asc ''u1'', asc ''u2'', asc ''u3''] = 3" by simp
  have run: "fst (batch_loop second_offline_env (length [asc ''u1'', asc ''u2'', asc ''u3'']) 30 True 1
               [asc ''u1'', asc ''u2'', asc ''u3''] (Some (asc ''div#content'')) [] init_sys) =
             Inr [?r1, ?r2, ?r3]"
    unfolding len by (rule run_second_offline)
  have c1: "content ?r1 \<noteq> []" by (simp add: asc_def)
  have c2: "content ?r2 = []" by simp
  have c3: "content ?r3 \<noteq> []" by (simp add: asc_def)
  have fo: "fs_open second_offline_env (asc ''out.txt'') False = Inr ()"
    by (simp add: second_offline_env_def fs_open_env_of)
  have e1: "utf8_encodable (content ?r1)" by (simp add: utf8_encodable_asc)
  have e3: "utf8_encodable (content ?r3)" by (simp add: utf8_encodable_asc)
  have eo: "utf8_encodable (asc ''out.txt'')" by (rule utf8_encodable_asc)
  from batch_three_second_fails [OF run c1 c2 c3 fo e1 e3 eo] show ?thesis by simp
qed

text \<open>
  Claim C10. When the loop of the batch has collected a result with empty content and no
  error, and the output file can be opened and the text and the output path encoded,
  \<open>batch_scrape\<close> returns normally; the status lines it prints are those of the results in
  order, with, for this result, the line of a failure with the default unknown reason;
  the count of saved pages and the text written to the file are those of the other
  results; and the status of any result is success exactly when its content is not empty.
\<close>

theorem empty_content_without_error_is_failure:
  assumes "fst (batch_loop E (length urls) vt hl 1 urls sel [] st) = Inr (xs @ r # ys)"
    and "content r = []" and "error r = None"
    and "fs_open E out ap = Inr ()"
    and "utf8_encodable (combined_text (xs @ ys))" and "utf8_encodable out"
  shows "fst (batch_scrape E urls out sel vt hl ap st) = Inr ()
    \<and> console (snd (batch_scrape E urls out sel vt hl ap st)) =
        console (snd (batch_loop E (length urls) vt hl 1 urls sel [] st)) @
        [msg_batch_done, msg_saved (length (filter (\<lambda>r. content r \<noteq> []) (xs @ ys))) out] @
        map status_line xs @
        [[45, 32] @ url r @ [58, 32] @ status_failure unknown_reason] @
        map status_line ys
    \<and> files (snd (batch_scrape E urls out sel vt hl ap st)) out =
        Some ((if ap then (case files (snd (batch_loop E (length urls) vt hl 1 urls sel [] st)) out of
                             None \<Rightarrow> [] | Some old \<Rightarrow> old) else []) @
              combined_text (xs @ ys))
    \<and> (\<forall>r'. (status_of r' = status_success) = (content r' \<noteq> []))"
proof -
  obtain st1 where run: "batch_loop E (length urls) vt hl 1 urls sel [] st = (Inr (xs @ r # ys), st1)"
    using assms(1) by (cases "batch_loop E (length urls) vt hl 1 urls sel [] st") simp
  have same: "combined_text (xs @ r # ys) = combined_text (xs @ ys)"
    using assms(2) by (simp add: combined_text_def)
  then have enc: "utf8_encodable (combined_text (xs @ r # ys))" using assms(5) by simp
  show ?thesis
    unfolding batch_scrape_effects [OF run assms(4) enc assms(6)] run same
    using assms(2,3)
    by (simp add: status_line_def status_of_def status_success_def status_failure_def)
qed

theorem empty_content_without_error_is_failure_witness:
  "fst (batch_scrape ad_page_env [asc ''u1''] (asc ''out.txt'') (Some (asc ''div#content''))
          30 True False init_sys) = Inr ()
   \<and> console (snd (batch_scrape ad_page_env [asc ''u1''] (asc ''out.txt'') (Some (asc ''div#content''))
          30 True False init_sys)) =
        console (snd (batch_loop ad_page_env (length [asc ''u1'']) 30 True 1 [asc ''u1'']
          (Some (asc ''div#content'')) [] init_sys)) @
        [msg_batch_done, msg_saved 0 (asc ''out.txt''),
         [45, 32] @ asc ''u1'' @ [58, 32] @ status_failure unknown_reason]
   \<and> files (snd (batch_scrape ad_page_env [asc ''u1''] (asc ''out.txt'') (Some (asc ''div#content''))
          30 True False init_sys)) (asc ''out.txt'') = Some ([10, 10] @ replicate 50 61)"
proof -
  let ?r = "\<lparr>url = asc ''u1'', content = [], selector = Some (asc ''div#content''), error = None\<rparr>"
  have len: "length [asc ''u1''] = 1" by simp
  have run: "fst (batch_loop ad_page_env (length [asc ''u1'']) 30 True 1 [asc ''u1'']
               (Some (asc ''div#content'')) [] init_sys) = Inr ([] @ ?r # [])"
    unfolding len using run_ad_page by simp
  have fo: "fs_open ad_page_env (asc ''out.txt'') False = Inr ()"
    by (simp add: ad_page_env_def fs_open_env_of)
  have enc: "utf8_encodable (combined_text ([] @ []))"
    by (simp add: combined_text_def utf8_encodable_append utf8_encodable_Cons utf8_encodable_Nil
          utf8_encodable_replicate is_surrogate_def)
  have eo: "utf8_encodable (asc ''out.txt'')" by (rule utf8_encodable_asc)
  from empty_content_without_error_is_failure [OF run _ _ fo enc eo]
  show ?thesis by (simp add: combined_text_def)
qed

end
